theory Spec2Isabelle
  imports Main
begin

section \<open>The insertion-ordered map of the JavaScript runtime\<close>

text \<open>
  A JavaScript \<^verbatim>\<open>Map\<close> iterates its keys in insertion order: writing a key that is
  already present keeps its position, deleting and writing it again moves it to the
  end. The map is therefore an association list with the oldest insertion first.
\<close>

type_synonym ('k, 'v) js_map = "('k \<times> 'v) list"

definition map_has :: "('k, 'v) js_map \<Rightarrow> 'k \<Rightarrow> bool" where
  "map_has m k = (k \<in> set (map fst m))"

definition map_get :: "('k, 'v) js_map \<Rightarrow> 'k \<Rightarrow> 'v option" where
  "map_get m k = map_of m k"

fun map_delete :: "('k, 'v) js_map \<Rightarrow> 'k \<Rightarrow> ('k, 'v) js_map" where
  "map_delete [] k = []"
| "map_delete ((a, b) # m) k = (if a = k then map_delete m k else (a, b) # map_delete m k)"

fun map_set :: "('k, 'v) js_map \<Rightarrow> 'k \<Rightarrow> 'v \<Rightarrow> ('k, 'v) js_map" where
  "map_set [] k v = [(k, v)]"
| "map_set ((a, b) # m) k v = (if a = k then (a, v) # m else (a, b) # map_set m k v)"

definition map_keys :: "('k, 'v) js_map \<Rightarrow> 'k list" where
  "map_keys m = map fst m"

section \<open>LRUCache (useChatStore.js)\<close>

record ('k, 'v) LRUCache =
  maxSize :: nat
  cache :: "('k, 'v) js_map"

definition LRUCache_new :: "nat \<Rightarrow> ('k, 'v) LRUCache" where
  "LRUCache_new n = \<lparr>maxSize = n, cache = []\<rparr>"

definition lru_size :: "('k, 'v) LRUCache \<Rightarrow> nat" where
  "lru_size c = length (cache c)"

definition lru_keys :: "('k, 'v) LRUCache \<Rightarrow> 'k list" where
  "lru_keys c = map_keys (cache c)"

definition lru_has :: "('k, 'v) LRUCache \<Rightarrow> 'k \<Rightarrow> bool" where
  "lru_has c k = map_has (cache c) k"

text \<open>
  \<^verbatim>\<open>get(key)\<close>: null (here \<open>None\<close>) when the key is absent; otherwise the entry is
  deleted and written again, which moves it to the end of the map.
\<close>

definition lru_get :: "('k, 'v) LRUCache \<Rightarrow> 'k \<Rightarrow> 'v option \<times> ('k, 'v) LRUCache" where
  "lru_get c k =
     (if \<not> map_has (cache c) k then (None, c)
      else (case map_get (cache c) k of
              None \<Rightarrow> (None, c)
            | Some val \<Rightarrow> (Some val, c\<lparr>cache := map_set (map_delete (cache c) k) k val\<rparr>)))"

text \<open>
  The first statement of \<^verbatim>\<open>set(key, value)\<close>: when the size has reached
  \<^verbatim>\<open>maxSize\<close>, the first key of the map is deleted (on an empty map the first key is
  undefined and the deletion does nothing).
\<close>

definition evict_oldest :: "('k, 'v) LRUCache \<Rightarrow> ('k, 'v) LRUCache" where
  "evict_oldest c =
     (if length (cache c) \<ge> maxSize c
      then (case cache c of
              [] \<Rightarrow> c
            | (firstKey, _) # _ \<Rightarrow> c\<lparr>cache := map_delete (cache c) firstKey\<rparr>)
      else c)"

definition lru_set :: "('k, 'v) LRUCache \<Rightarrow> 'k \<Rightarrow> 'v \<Rightarrow> ('k, 'v) LRUCache" where
  "lru_set c k v = (let c' = evict_oldest c in c'\<lparr>cache := map_set (cache c') k v\<rparr>)"

definition lru_clear :: "('k, 'v) LRUCache \<Rightarrow> ('k, 'v) LRUCache" where
  "lru_clear c = c\<lparr>cache := []\<rparr>"

datatype ('k, 'v) cache_op = Get 'k | Set 'k 'v | Has 'k | Clear

fun apply_op :: "('k, 'v) cache_op \<Rightarrow> ('k, 'v) LRUCache \<Rightarrow> ('k, 'v) LRUCache" where
  "apply_op (Get k) c = snd (lru_get c k)"
| "apply_op (Set k v) c = lru_set c k v"
| "apply_op (Has k) c = c"
| "apply_op Clear c = lru_clear c"

fun run_ops :: "('k, 'v) cache_op list \<Rightarrow> ('k, 'v) LRUCache \<Rightarrow> ('k, 'v) LRUCache" where
  "run_ops [] c = c"
| "run_ops (x # xs) c = run_ops xs (apply_op x c)"

text \<open>
  The cache itself keeps no time stamps. To say what "least recently touched" means, the
  operations are replayed with a logical clock beside the cache: \<open>touched k\<close> is the
  clock value of the last operation that inserted \<open>k\<close> as a new key or read it with
  a successful \<^verbatim>\<open>get\<close>. The cache component is computed by the code above.
\<close>

record ('k, 'v) stamped =
  lru :: "('k, 'v) LRUCache"
  touched :: "'k \<Rightarrow> nat"
  clock :: nat

definition stamped_new :: "nat \<Rightarrow> ('k, 'v) stamped" where
  "stamped_new n = \<lparr>lru = LRUCache_new n, touched = (\<lambda>_. 0), clock = 0\<rparr>"

fun stamp_op :: "('k, 'v) cache_op \<Rightarrow> ('k, 'v) stamped \<Rightarrow> ('k, 'v) stamped" where
  "stamp_op (Get k) s =
     \<lparr>lru = apply_op (Get k) (lru s),
      touched = (if lru_has (lru s) k then (touched s)(k := clock s) else touched s),
      clock = Suc (clock s)\<rparr>"
| "stamp_op (Set k v) s =
     \<lparr>lru = apply_op (Set k v) (lru s),
      touched = (if lru_has (evict_oldest (lru s)) k then touched s
                 else (touched s)(k := clock s)),
      clock = Suc (clock s)\<rparr>"
| "stamp_op (Has k) s = s\<lparr>clock := Suc (clock s)\<rparr>"
| "stamp_op Clear s = s\<lparr>lru := apply_op Clear (lru s), clock := Suc (clock s)\<rparr>"

fun run_stamped :: "('k, 'v) cache_op list \<Rightarrow> ('k, 'v) stamped \<Rightarrow> ('k, 'v) stamped" where
  "run_stamped [] s = s"
| "run_stamped (x # xs) s = run_stamped xs (stamp_op x s)"

definition stamps_ordered :: "('k, 'v) stamped \<Rightarrow> bool" where
  "stamps_ordered s =
     (sorted_wrt (<) (map (touched s) (lru_keys (lru s)))
      \<and> list_all (\<lambda>k. touched s k < clock s) (lru_keys (lru s))
      \<and> distinct (lru_keys (lru s)))"

section \<open>Strings and errors of the JavaScript runtime\<close>

text \<open>
  Strings are lists of characters, a character being a code unit below 256 (the
  Latin-1 range). \<^verbatim>\<open>trim\<close> removes white space and line terminators at both ends;
  in this range these are the code points 0x09 to 0x0D, the space 0x20 and the no-break
  space 0xA0. \<^verbatim>\<open>includes\<close> tests for a contiguous substring;
  \<^verbatim>\<open>substring(0, n)\<close> is \<open>take n\<close>. An empty string is falsy, as is a missing
  field, so a missing string field is modelled by the empty string.
\<close>

definition is_space :: "char \<Rightarrow> bool" where
  "is_space ch =
     (ch \<in> {CHR 0x09, CHR 0x0A, CHR 0x0B, CHR 0x0C, CHR 0x0D, CHR 0x20, CHR 0xA0})"

definition trim :: "string \<Rightarrow> string" where
  "trim s = rev (dropWhile is_space (rev (dropWhile is_space s)))"

fun starts_with :: "string \<Rightarrow> string \<Rightarrow> bool" where
  "starts_with s [] = True"
| "starts_with [] (y # ys) = False"
| "starts_with (x # xs) (y # ys) = (x = y \<and> starts_with xs ys)"

fun includes_str :: "string \<Rightarrow> string \<Rightarrow> bool" where
  "includes_str [] needle = (needle = [])"
| "includes_str (x # xs) needle = (starts_with (x # xs) needle \<or> includes_str xs needle)"

text \<open>
  A thrown \<^verbatim>\<open>Error\<close>: its name, its message and the \<^verbatim>\<open>code\<close> property that the
  document store sets on its errors (empty when absent). A rejected promise or a
  \<^verbatim>\<open>throw\<close> is the \<open>Inl\<close> branch of a sum.
\<close>

record js_error =
  err_name :: string
  err_message :: string
  err_code :: string

definition Error :: "string \<Rightarrow> js_error" where
  "Error msg = \<lparr>err_name = ''Error'', err_message = msg, err_code = []\<rparr>"

section \<open>Messages, chats and the document store\<close>

text \<open>
  A message as it is stored in a chat document and as it is held in memory. The fields
  \<open>sender\<close> and \<open>text\<close> exist on messages written by earlier versions and are copied
  by the object spread when a snapshot is normalised; the chat mutator never writes
  them. Time stamps are epoch milliseconds, \<open>0\<close> standing for a missing value.
\<close>

record message =
  msg_id :: string
  messageCiphertextKMS :: string
  kmsKeyVersionName :: string
  originalSender :: string
  sender :: string
  text_field :: string
  timestamp :: nat

record chat_doc =
  userId :: string
  title :: string
  createdAt :: nat
  messages :: "message list"

record chat = chat_doc +
  chat_id :: string

text \<open>
  The collection \<^verbatim>\<open>chats\<close> of the document store, as an association list from
  document identifier to document data. The store is an external service; its three
  write operations are modelled at their interface: each either fails with the error
  the environment injects (\<open>fault\<close>) and leaves the collection unchanged, or takes
  effect atomically. \<^verbatim>\<open>updateDoc\<close> rejects with code \<^verbatim>\<open>not-found\<close> when the document
  does not exist; \<^verbatim>\<open>arrayUnion\<close> appends the element unless an equal element is
  already in the array; \<^verbatim>\<open>deleteDoc\<close> of a missing document succeeds.
\<close>

type_synonym firestore = "(string \<times> chat_doc) list"

definition addDoc :: "js_error option \<Rightarrow> string \<Rightarrow> firestore \<Rightarrow> chat_doc
    \<Rightarrow> (js_error + string) \<times> firestore" where
  "addDoc fault newId db chatData =
     (case fault of
        Some e \<Rightarrow> (Inl e, db)
      | None \<Rightarrow> (Inr newId, db @ [(newId, chatData)]))"

definition arrayUnion :: "message \<Rightarrow> message list \<Rightarrow> message list" where
  "arrayUnion m ms = (if m \<in> set ms then ms else ms @ [m])"

definition updateDoc :: "js_error option \<Rightarrow> firestore \<Rightarrow> string \<Rightarrow> message
    \<Rightarrow> (js_error + unit) \<times> firestore" where
  "updateDoc fault db chatRef m =
     (case fault of
        Some e \<Rightarrow> (Inl e, db)
      | None \<Rightarrow>
          (case map_of db chatRef of
             None \<Rightarrow> (Inl \<lparr>err_name = ''FirebaseError'', err_message = ''No document to update'',
                          err_code = ''not-found''\<rparr>, db)
           | Some d \<Rightarrow> (Inr (), map_set db chatRef (d\<lparr>messages := arrayUnion m (messages d)\<rparr>))))"

definition deleteDoc :: "js_error option \<Rightarrow> firestore \<Rightarrow> string
    \<Rightarrow> (js_error + unit) \<times> firestore" where
  "deleteDoc fault db chatRef =
     (case fault of
        Some e \<Rightarrow> (Inl e, db)
      | None \<Rightarrow> (Inr (), map_delete db chatRef))"

section \<open>Timers of the JavaScript runtime\<close>

text \<open>
  \<^verbatim>\<open>setTimeout\<close> registers a pending timer and returns its identifier (a positive
  number); \<^verbatim>\<open>clearTimeout\<close> removes it. What a timer does when it fires is its
  action: the debounced batch dispatch, the per-attempt decryption timeout, or the
  delayed retry of one message.
\<close>

datatype timer_action =
    ProcessBatch
  | DecryptionTimeout string
  | RetryDecrypt message

record timer =
  timer_id :: nat
  action :: timer_action
  delay :: nat

section \<open>State of the chat store hook (useChatStore.js)\<close>

definition MAX_DECRYPTION_RETRIES :: nat where
  "MAX_DECRYPTION_RETRIES = 3"

definition DECRYPTION_RETRY_DELAY :: nat where
  "DECRYPTION_RETRY_DELAY = 1000"

definition MAX_CONCURRENT_DECRYPTIONS :: nat where
  "MAX_CONCURRENT_DECRYPTIONS = 5"

definition DECRYPTION_TIMEOUT :: nat where
  "DECRYPTION_TIMEOUT = 30000"

definition INITIAL_CHAT_LIMIT :: nat where
  "INITIAL_CHAT_LIMIT = 20"

definition CHAT_PAGE_SIZE :: nat where
  "CHAT_PAGE_SIZE = 10"

definition MAX_MESSAGES_IN_MEMORY :: nat where
  "MAX_MESSAGES_IN_MEMORY = 1000"

text \<open>
  The React state and the refs of the hook, together with the pending timers of the
  runtime. \<open>userId_arg\<close> is the hook's argument (empty when no user is signed in);
  \<open>lastVisibleChatRef\<close> holds the identifier of the last document seen.
\<close>

record hook_state =
  userId_arg :: string
  chats :: "chat list"
  loadingChats :: bool
  loadingMore :: bool
  hasMore :: bool
  error :: "string option"
  lastVisibleChatRef :: "string option"
  loadedChatsCountRef :: nat
  mountedRef :: bool
  decryptedMessagesCache :: "(string, string) LRUCache"
  decryptingMessageIds :: "string set"
  retryCountsRef :: "string \<rightharpoonup> nat"
  decryptionTimeoutsRef :: "string \<rightharpoonup> nat"
  decryptionQueuesRef :: "string set"
  batchDecryptionQueueRef :: "message list"
  batchDecryptionTimeoutRef :: "nat option"
  timers :: "timer list"
  nextTimerId :: nat

definition initial_state :: "string \<Rightarrow> hook_state" where
  "initial_state uid =
     \<lparr>userId_arg = uid, chats = [], loadingChats = True, loadingMore = False, hasMore = True,
      error = None, lastVisibleChatRef = None, loadedChatsCountRef = 0, mountedRef = True,
      decryptedMessagesCache = LRUCache_new MAX_MESSAGES_IN_MEMORY,
      decryptingMessageIds = {}, retryCountsRef = Map.empty,
      decryptionTimeoutsRef = Map.empty, decryptionQueuesRef = {},
      batchDecryptionQueueRef = [], batchDecryptionTimeoutRef = None,
      timers = [], nextTimerId = 1\<rparr>"

definition setTimeout :: "timer_action \<Rightarrow> nat \<Rightarrow> hook_state \<Rightarrow> nat \<times> hook_state" where
  "setTimeout act ms st =
     (nextTimerId st,
      st\<lparr>timers := timers st @ [\<lparr>timer_id = nextTimerId st, action = act, delay = ms\<rparr>],
         nextTimerId := Suc (nextTimerId st)\<rparr>)"

definition clearTimeout :: "nat \<Rightarrow> hook_state \<Rightarrow> hook_state" where
  "clearTimeout tid st = st\<lparr>timers := filter (\<lambda>t. timer_id t \<noteq> tid) (timers st)\<rparr>"

section \<open>The chat mutator: createNewChat, addMessageToChat, deleteChat\<close>

text \<open>
  What the environment decides during one call of a mutator: the outcome of the
  encryption service for a plaintext, the faults of the store operations, the
  identifier the store gives a new document, and the values of \<^verbatim>\<open>uuidv4()\<close>,
  \<^verbatim>\<open>Timestamp.now()\<close> and \<^verbatim>\<open>serverTimestamp()\<close>.
\<close>

record mutator_env =
  encryptChatMessageAPI :: "string \<Rightarrow> js_error + (string \<times> string)"
  addDoc_fault :: "js_error option"
  newDocId :: string
  updateDoc_fault :: "js_error option"
  deleteDoc_fault :: "js_error option"
  uuidv4 :: string
  Timestamp_now :: nat
  serverTimestamp :: nat

text \<open>The body of the \<^verbatim>\<open>try\<close> block of \<^verbatim>\<open>createNewChat\<close>.\<close>

definition createNewChat_try :: "mutator_env \<Rightarrow> string \<Rightarrow> hook_state \<Rightarrow> firestore
    \<Rightarrow> (js_error + string) \<times> firestore" where
  "createNewChat_try env firstMessageText st db =
     (case encryptChatMessageAPI env (trim firstMessageText) of
        Inl e \<Rightarrow> (Inl e, db)
      | Inr (ciphertext, kmsKeyVersion) \<Rightarrow>
          (let chatData = \<lparr>userId = userId_arg st,
                 title = take 40 firstMessageText
                           @ (if length firstMessageText > 40 then ''...'' else []),
                 createdAt = serverTimestamp env,
                 messages = []\<rparr>
           in case addDoc (addDoc_fault env) (newDocId env) db chatData of
                (Inl e, db1) \<Rightarrow> (Inl e, db1)
              | (Inr chatRef, db1) \<Rightarrow>
                  (let firstMessageToStore = \<lparr>msg_id = uuidv4 env,
                         messageCiphertextKMS = ciphertext,
                         kmsKeyVersionName = kmsKeyVersion,
                         originalSender = ''user'',
                         sender = [],
                         text_field = [],
                         timestamp = Timestamp_now env\<rparr>
                   in case updateDoc (updateDoc_fault env) db1 chatRef firstMessageToStore of
                        (Inl e, db2) \<Rightarrow> (Inl e, db2)
                      | (Inr _, db2) \<Rightarrow> (Inr chatRef, db2))))"

definition createNewChat :: "mutator_env \<Rightarrow> string \<Rightarrow> hook_state \<Rightarrow> firestore
    \<Rightarrow> (js_error + string) \<times> hook_state \<times> firestore" where
  "createNewChat env firstMessageText st db =
     (if userId_arg st = [] then (Inl (Error ''User not authenticated.''), st, db)
      else if trim firstMessageText = [] then (Inl (Error ''Message cannot be empty.''), st, db)
      else
        (let st1 = st\<lparr>error := None\<rparr>
         in case createNewChat_try env firstMessageText st1 db of
              (Inr chatRefId, db') \<Rightarrow> (Inr chatRefId, st1, db')
            | (Inl err, db') \<Rightarrow>
                (let errorMessage = ''Failed to create chat. ''
                       @ (if includes_str (err_message err) ''encrypt''
                          then ''Unable to secure your message. '' else [])
                       @ (if err_message err \<noteq> [] then err_message err
                          else ''Please try again.'')
                 in (Inl (Error errorMessage), st1\<lparr>error := Some errorMessage\<rparr>, db'))))"

text \<open>The body of the \<^verbatim>\<open>try\<close> block of \<^verbatim>\<open>addMessageToChat\<close>.\<close>

definition addMessageToChat_try :: "mutator_env \<Rightarrow> string \<Rightarrow> string \<Rightarrow> string \<Rightarrow> firestore
    \<Rightarrow> (js_error + unit) \<times> firestore" where
  "addMessageToChat_try env chatId msgText msgSender db =
     (case encryptChatMessageAPI env (trim msgText) of
        Inl e \<Rightarrow> (Inl e, db)
      | Inr (ciphertext, kmsKeyVersion) \<Rightarrow>
          (let messageToStore = \<lparr>msg_id = uuidv4 env,
                 messageCiphertextKMS = ciphertext,
                 kmsKeyVersionName = kmsKeyVersion,
                 originalSender = msgSender,
                 sender = [],
                 text_field = [],
                 timestamp = Timestamp_now env\<rparr>
           in updateDoc (updateDoc_fault env) db chatId messageToStore))"

definition addMessageToChat :: "mutator_env \<Rightarrow> string \<Rightarrow> string \<Rightarrow> string \<Rightarrow> hook_state
    \<Rightarrow> firestore \<Rightarrow> (js_error + unit) \<times> hook_state \<times> firestore" where
  "addMessageToChat env chatId msgText msgSender st db =
     (if userId_arg st = [] \<or> chatId = [] then (Inl (Error ''User or chat ID missing''), st, db)
      else if trim msgText = [] \<or> msgSender = [] then (Inl (Error ''Invalid message data.''), st, db)
      else
        (let st1 = st\<lparr>error := None\<rparr>
         in case addMessageToChat_try env chatId msgText msgSender db of
              (Inr _, db') \<Rightarrow> (Inr (), st1, db')
            | (Inl err, db') \<Rightarrow>
                (let errorMessage = ''Failed to send message. ''
                       @ (if includes_str (err_message err) ''encrypt''
                          then ''Unable to secure your message. ''
                          else if err_code err = ''not-found'' then ''Chat not found. '' else [])
                       @ (if err_message err \<noteq> [] then err_message err
                          else ''Please try again.'')
                 in (Inl (Error errorMessage), st1\<lparr>error := Some errorMessage\<rparr>, db'))))"

text \<open>
  \<^verbatim>\<open>deleteChat\<close> first drops, for every message of the chat in the in-memory list, its
  entry in the decrypting set, its retry count and its pending timeout, and only then
  asks the store to delete the document.
\<close>

definition purge_message :: "hook_state \<Rightarrow> message \<Rightarrow> hook_state" where
  "purge_message st msg =
     (let st1 = st\<lparr>decryptingMessageIds := decryptingMessageIds st - {msg_id msg},
                   retryCountsRef := (retryCountsRef st)(msg_id msg := None)\<rparr>
      in case decryptionTimeoutsRef st1 (msg_id msg) of
           None \<Rightarrow> st1
         | Some timeoutId \<Rightarrow>
             (if timeoutId = 0 then st1
              else (clearTimeout timeoutId st1)
                     \<lparr>decryptionTimeoutsRef := (decryptionTimeoutsRef st1)(msg_id msg := None)\<rparr>))"

definition deleteChat :: "mutator_env \<Rightarrow> string \<Rightarrow> hook_state \<Rightarrow> firestore
    \<Rightarrow> (js_error + unit) \<times> hook_state \<times> firestore" where
  "deleteChat env chatIdToDelete st db =
     (if userId_arg st = []
      then (let errorMsg = ''User not authenticated. Cannot delete chat.''
            in (Inl (Error errorMsg), st\<lparr>error := Some errorMsg\<rparr>, db))
      else
        (let st1 = st\<lparr>error := None\<rparr>;
             chatMessages = (case find (\<lambda>c. chat_id c = chatIdToDelete) (chats st1) of
                               None \<Rightarrow> []
                             | Some c \<Rightarrow> messages c);
             st2 = foldl purge_message st1 chatMessages;
             st3 = st2\<lparr>decryptionQueuesRef := decryptionQueuesRef st2 - {chatIdToDelete}\<rparr>
         in case deleteDoc (deleteDoc_fault env) db chatIdToDelete of
              (Inr _, db') \<Rightarrow> (Inr (), st3, db')
            | (Inl err, db') \<Rightarrow>
                (let errorMessage = ''Failed to delete chat. ''
                       @ (if err_code err = ''permission-denied''
                          then ''You don't have permission to delete this chat.''
                          else if err_code err = ''not-found'' then ''Chat not found.''
                          else if err_message err \<noteq> [] then err_message err
                          else ''Please try again.'')
                 in (Inl (Error errorMessage), st3\<lparr>error := Some errorMessage\<rparr>, db'))))"

text \<open>
  Names for the part of \<^verbatim>\<open>deleteChat\<close> that runs before the store is asked to delete
  the document: the messages of the chat in the in-memory list, and the state after
  purging them and the queue entry of the chat.
\<close>

definition chatMessages_of :: "string \<Rightarrow> hook_state \<Rightarrow> message list" where
  "chatMessages_of chatId st =
     (case find (\<lambda>c. chat_id c = chatId) (chats st) of
        None \<Rightarrow> []
      | Some c \<Rightarrow> messages c)"

definition purge_chat :: "string \<Rightarrow> hook_state \<Rightarrow> hook_state" where
  "purge_chat chatId st =
     (let st2 = foldl purge_message st (chatMessages_of chatId st)
      in st2\<lparr>decryptionQueuesRef := decryptionQueuesRef st2 - {chatId}\<rparr>)"

text \<open>
  Names for the two object literals of the mutator, used to state what reaches the
  store: \<^verbatim>\<open>chatData\<close> of \<^verbatim>\<open>createNewChat\<close> and the message object that
  \<^verbatim>\<open>createNewChat\<close> and \<^verbatim>\<open>addMessageToChat\<close> hand to \<^verbatim>\<open>arrayUnion\<close>.
\<close>

definition chatData_of :: "mutator_env \<Rightarrow> string \<Rightarrow> hook_state \<Rightarrow> chat_doc" where
  "chatData_of env txt st =
     \<lparr>userId = userId_arg st,
      title = take 40 txt @ (if length txt > 40 then ''...'' else []),
      createdAt = serverTimestamp env,
      messages = []\<rparr>"

definition messageToStore_of :: "mutator_env \<Rightarrow> string \<Rightarrow> string \<Rightarrow> string \<Rightarrow> message" where
  "messageToStore_of env ct kv sndr =
     \<lparr>msg_id = uuidv4 env, messageCiphertextKMS = ct, kmsKeyVersionName = kv,
      originalSender = sndr, sender = [], text_field = [], timestamp = Timestamp_now env\<rparr>"

text \<open>Two environments used in the examples: one where every call succeeds, one where
  the store rejects the append of the first message.\<close>

definition demo_env :: mutator_env where
  "demo_env = \<lparr>encryptChatMessageAPI = (\<lambda>p. Inr (''CIPHERTEXT'', ''key/1'')),
     addDoc_fault = None, newDocId = ''chat1'', updateDoc_fault = None, deleteDoc_fault = None,
     uuidv4 = ''m1'', Timestamp_now = 5, serverTimestamp = 6\<rparr>"

definition failing_env :: mutator_env where
  "failing_env = demo_env\<lparr>updateDoc_fault :=
     Some \<lparr>err_name = ''FirebaseError'', err_message = ''unavailable'',
           err_code = ''unavailable''\<rparr>\<rparr>"

section \<open>Authenticated requests (apiService.js)\<close>

text \<open>
  An HTTP response, reduced to what the request layer reads: the status code and the
  body. \<^verbatim>\<open>response.ok\<close> holds for the status codes 200 to 299.
\<close>

record http_response =
  status :: nat
  body :: string

definition response_ok :: "http_response \<Rightarrow> bool" where
  "response_ok r = (200 \<le> status r \<and> status r \<le> 299)"

text \<open>
  The module state: the token cache (an empty token and expiry time \<open>0\<close> stand for
  \<^verbatim>\<open>null\<close>) and the response cache, a map from request key to response and time of
  caching. The \<^verbatim>\<open>refreshPromise\<close> field only joins concurrent refreshes and the
  clean-up timer of the response cache only removes expired entries, which
  \<^verbatim>\<open>getCachedResponse\<close> ignores anyway; both are left out.
\<close>

record token_cache =
  token :: string
  expiryTime :: nat

record api_state =
  tokenCache :: token_cache
  responseCache :: "(string, http_response \<times> nat) js_map"

definition CACHE_TTL :: nat where
  "CACHE_TTL = 5000"

text \<open>
  What the identity provider answers when a fresh token is requested: no user is signed
  in, a token, a failure of \<^verbatim>\<open>getIdToken\<close>, or a failure of the auth-state listener.
\<close>

datatype idp_outcome = NoUser | Token string | TokenError js_error | AuthStateError js_error

text \<open>
  The environment of one call of \<^verbatim>\<open>makeAuthenticatedRequest\<close>: the clock, and for
  each recursion depth (the value of \<^verbatim>\<open>retryCount\<close>) the answer of the identity
  provider and the outcome of \<^verbatim>\<open>fetch\<close> for the bearer token sent. A rejected
  \<^verbatim>\<open>fetch\<close> (network failure, or the abort signal after 30 seconds) is \<open>Inl\<close>.
\<close>

record api_env =
  now :: nat
  idp :: "nat \<Rightarrow> idp_outcome"
  fetch :: "nat \<Rightarrow> string \<Rightarrow> js_error + http_response"

definition cacheResponse :: "nat \<Rightarrow> string \<Rightarrow> http_response \<Rightarrow> api_state \<Rightarrow> api_state" where
  "cacheResponse t key response s =
     s\<lparr>responseCache := map_set (responseCache s) key (response, t)\<rparr>"

definition getCachedResponse :: "nat \<Rightarrow> string \<Rightarrow> api_state \<Rightarrow> http_response option \<times> api_state" where
  "getCachedResponse t key s =
     (case map_get (responseCache s) key of
        Some (resp, stamp) \<Rightarrow>
          (if t < stamp + CACHE_TTL then (Some resp, s)
           else (None, s\<lparr>responseCache := map_delete (responseCache s) key\<rparr>))
      | None \<Rightarrow> (None, s\<lparr>responseCache := map_delete (responseCache s) key\<rparr>))"

definition getCurrentUserToken :: "nat \<Rightarrow> idp_outcome \<Rightarrow> api_state
    \<Rightarrow> (js_error + string) \<times> api_state" where
  "getCurrentUserToken t answer s =
     (if token (tokenCache s) \<noteq> [] \<and> expiryTime (tokenCache s) \<noteq> 0
         \<and> t < expiryTime (tokenCache s)
      then (Inr (token (tokenCache s)), s)
      else (case answer of
              Token tok \<Rightarrow>
                (Inr tok, s\<lparr>tokenCache := \<lparr>token = tok, expiryTime = t + 50 * 60 * 1000\<rparr>\<rparr>)
            | TokenError e \<Rightarrow> (Inl e, s\<lparr>tokenCache := \<lparr>token = [], expiryTime = 0\<rparr>\<rparr>)
            | NoUser \<Rightarrow> (Inr [], s\<lparr>tokenCache := \<lparr>token = [], expiryTime = 0\<rparr>\<rparr>)
            | AuthStateError e \<Rightarrow> (Inl e, s)))"

text \<open>The \<^verbatim>\<open>catch\<close> block of \<^verbatim>\<open>makeAuthenticatedRequest\<close>.\<close>

definition request_catch :: "js_error \<Rightarrow> js_error" where
  "request_catch e =
     (if err_name e = ''AbortError''
      then Error ''Request timeout. The server took too long to respond.''
      else if err_name e = ''TypeError'' \<and> includes_str (err_message e) ''fetch''
      then Error ''Network error. Please check your internet connection.''
      else e)"

definition maxRetries :: nat where
  "maxRetries = 2"

text \<open>
  \<^verbatim>\<open>makeAuthenticatedRequest(url, options, retryCount, useCache)\<close>. The result is
  the settled promise, the module state, and the bearer tokens of the \<^verbatim>\<open>fetch\<close>
  calls that were issued, in order. The recursive call is returned without
  \<^verbatim>\<open>await\<close>, so its rejection does not pass through this level's \<^verbatim>\<open>catch\<close> again.
\<close>

function makeAuthenticatedRequest :: "api_env \<Rightarrow> string \<Rightarrow> string \<Rightarrow> nat \<Rightarrow> bool \<Rightarrow> api_state
    \<Rightarrow> (js_error + http_response) \<times> api_state \<times> string list" where
  "makeAuthenticatedRequest env url reqBody retryCount useCache s =
     (case (if useCache then getCachedResponse (now env) (url @ '':'' @ reqBody) s
            else (None, s)) of
        (Some cachedResp, s0) \<Rightarrow> (Inr cachedResp, s0, [])
      | (None, s0) \<Rightarrow>
          (case getCurrentUserToken (now env) (idp env retryCount) s0 of
             (Inl e, s1) \<Rightarrow> (Inl (request_catch e), s1, [])
           | (Inr idToken, s1) \<Rightarrow>
               (if idToken = []
                then (Inl (request_catch (Error ''Authentication required. Please sign in.'')),
                      s1, [])
                else (case fetch env retryCount idToken of
                        Inl e \<Rightarrow> (Inl (request_catch e), s1, [idToken])
                      | Inr response \<Rightarrow>
                          (if (status response = 401 \<or> status response = 403)
                              \<and> retryCount < maxRetries
                           then (case makeAuthenticatedRequest env url reqBody (retryCount + 1)
                                        useCache
                                        (s1\<lparr>tokenCache := \<lparr>token = [], expiryTime = 0\<rparr>\<rparr>) of
                                   (r, s3, toks) \<Rightarrow> (r, s3, idToken # toks))
                           else (Inr response,
                                 (if useCache \<and> response_ok response
                                  then cacheResponse (now env) (url @ '':'' @ reqBody) response s1
                                  else s1),
                                 [idToken]))))))"
  by pat_completeness auto
termination
  by (relation "measure (\<lambda>(env, url, reqBody, retryCount, useCache, s). maxRetries - retryCount)")
     auto

text \<open>An environment in which the service answers every request with status 401.\<close>

definition always_401 :: api_env where
  "always_401 = \<lparr>now = 0,
     idp = (\<lambda>i. Token (if i = 0 then ''t0'' else if i = 1 then ''t1'' else ''t2'')),
     fetch = (\<lambda>i tok. Inr \<lparr>status = 401, body = []\<rparr>)\<rparr>"

definition fresh_api_state :: api_state where
  "fresh_api_state = \<lparr>tokenCache = \<lparr>token = [], expiryTime = 0\<rparr>, responseCache = []\<rparr>"

section \<open>Pagination: loadMoreChats (useChatStore.js)\<close>

text \<open>
  The one-shot query of \<^verbatim>\<open>loadMoreChats\<close>: chats of one user, newest first, starting
  after a cursor document, limited to a number of documents. The query engine belongs
  to the document store; it is modelled at its interface: the documents of the user in
  descending order of creation time, those after the cursor document, cut at the
  limit, or the injected fault.
\<close>

record query =
  q_userId :: string
  q_startAfter :: string
  q_limit :: nat

definition owned_desc :: "firestore \<Rightarrow> string \<Rightarrow> (string \<times> chat_doc) list" where
  "owned_desc db uid = rev (sort_key (\<lambda>p. createdAt (snd p)) (filter (\<lambda>p. userId (snd p) = uid) db))"

definition docs_after :: "string \<Rightarrow> (string \<times> chat_doc) list \<Rightarrow> (string \<times> chat_doc) list" where
  "docs_after cursor ds =
     (case dropWhile (\<lambda>p. fst p \<noteq> cursor) ds of
        [] \<Rightarrow> []
      | _ # rest \<Rightarrow> rest)"

definition getDocs :: "js_error option \<Rightarrow> firestore \<Rightarrow> query
    \<Rightarrow> js_error + (string \<times> chat_doc) list" where
  "getDocs fault db q =
     (case fault of
        Some e \<Rightarrow> Inl e
      | None \<Rightarrow> Inr (take (q_limit q) (docs_after (q_startAfter q) (owned_desc db (q_userId q)))))"

text \<open>
  The environment of one call: the fault of the query, the value of \<^verbatim>\<open>Date.now()\<close>
  and the identifiers that \<^verbatim>\<open>uuidv4()\<close> yields for the messages without one (by
  position of the document and of the message).
\<close>

record page_env =
  getDocs_fault :: "js_error option"
  Date_now :: nat
  uuid_gen :: "nat \<Rightarrow> nat \<Rightarrow> string"

text \<open>
  The mapping of a snapshot document to a chat: default title, time stamps coerced
  (a missing one becomes the current time), every message given an identifier and a
  sender, messages sorted by time stamp (the sort of the runtime is stable).
\<close>

definition normalise_message :: "nat \<Rightarrow> string \<Rightarrow> message \<Rightarrow> message" where
  "normalise_message t freshId msg =
     msg\<lparr>msg_id := (if msg_id msg \<noteq> [] then msg_id msg else freshId),
         timestamp := (if timestamp msg \<noteq> 0 then timestamp msg else t),
         sender := (if originalSender msg \<noteq> [] then originalSender msg
                    else if sender msg \<noteq> [] then sender msg else ''unknown'')\<rparr>"

definition toChat :: "nat \<Rightarrow> (nat \<Rightarrow> string) \<Rightarrow> string \<times> chat_doc \<Rightarrow> chat" where
  "toChat t uuid d =
     \<lparr>userId = userId (snd d),
      title = (if title (snd d) \<noteq> [] then title (snd d) else ''Untitled Chat''),
      createdAt = (if createdAt (snd d) \<noteq> 0 then createdAt (snd d) else t),
      messages = sort_key timestamp
                   (map (\<lambda>(i, m). normalise_message t (uuid i) m)
                        (enumerate 0 (messages (snd d)))),
      chat_id = fst d\<rparr>"

definition newChats_of :: "page_env \<Rightarrow> (string \<times> chat_doc) list \<Rightarrow> chat list" where
  "newChats_of env docs =
     map (\<lambda>(i, d). toChat (Date_now env) (uuid_gen env i) d) (enumerate 0 docs)"

text \<open>
  \<^verbatim>\<open>loadMoreChats\<close>, run to completion. The second component lists the queries sent to
  the store.
\<close>

definition loadMoreChats :: "page_env \<Rightarrow> firestore \<Rightarrow> hook_state \<Rightarrow> hook_state \<times> query list" where
  "loadMoreChats env db st =
     (case lastVisibleChatRef st of
        None \<Rightarrow> (st, [])
      | Some cursor \<Rightarrow>
          (if userId_arg st = [] \<or> loadingMore st \<or> \<not> hasMore st then (st, [])
           else
             (let st1 = st\<lparr>loadingMore := True\<rparr>;
                  nextQuery = \<lparr>q_userId = userId_arg st, q_startAfter = cursor,
                               q_limit = CHAT_PAGE_SIZE\<rparr>
              in case getDocs (getDocs_fault env) db nextQuery of
                   Inl e \<Rightarrow>
                     (st1\<lparr>error := Some ''Failed to load more chats'', loadingMore := False\<rparr>,
                      [nextQuery])
                 | Inr docs \<Rightarrow>
                     (if docs = [] then (st1\<lparr>hasMore := False, loadingMore := False\<rparr>, [nextQuery])
                      else
                        (let newChats = newChats_of env docs
                         in (st1\<lparr>lastVisibleChatRef := Some (fst (last docs)),
                                 loadedChatsCountRef := loadedChatsCountRef st1 + length newChats,
                                 chats := chats st1 @ newChats,
                                 hasMore := (length docs = CHAT_PAGE_SIZE),
                                 loadingMore := False\<rparr>,
                             [nextQuery]))))))"

text \<open>
  The live subscription: the query of the main effect (chats of the user, newest first,
  limited to the initial page) and the handler of a snapshot it delivers, which replaces
  the chat list, records the last document of the snapshot as the last-seen document
  and sets \<^verbatim>\<open>hasMore\<close> when the snapshot is a full initial page.
\<close>

definition subscription_snapshot :: "firestore \<Rightarrow> string \<Rightarrow> (string \<times> chat_doc) list" where
  "subscription_snapshot db uid = take INITIAL_CHAT_LIMIT (owned_desc db uid)"

definition onSnapshot_push :: "page_env \<Rightarrow> (string \<times> chat_doc) list \<Rightarrow> hook_state
    \<Rightarrow> hook_state" where
  "onSnapshot_push env docs st =
     (if \<not> mountedRef st then st
      else st\<lparr>lastVisibleChatRef := (if docs = [] then lastVisibleChatRef st
                                      else Some (fst (last docs))),
              loadedChatsCountRef := length (newChats_of env docs),
              chats := newChats_of env docs,
              loadingChats := False,
              error := None,
              hasMore := (length docs = INITIAL_CHAT_LIMIT)\<rparr>)"

text \<open>
  A store with 33 chats of one user, newest first, and the hook state after the first
  snapshot of the subscription has arrived: 20 chats loaded, the twentieth being the
  last-seen document.
\<close>

definition quiet_env :: page_env where
  "quiet_env = \<lparr>getDocs_fault = None, Date_now = 99, uuid_gen = (\<lambda>i j. ''generated'')\<rparr>"

definition chat_name :: "nat \<Rightarrow> string" where
  "chat_name i = ''chat'' @ replicate i (CHR ''+'')"

definition many_chats :: firestore where
  "many_chats = map (\<lambda>i. (chat_name i, \<lparr>userId = ''u1'', title = ''t'', createdAt = 100 - i,
                                messages = []\<rparr>)) [0..<33]"

definition subscribed_state :: hook_state where
  "subscribed_state = onSnapshot_push quiet_env (subscription_snapshot many_chats ''u1'')
                        (initial_state ''u1'')"

section \<open>Decryption of a single message with retries (useChatStore.js)\<close>

text \<open>The three error markers that \<^verbatim>\<open>decryptSingleMessage\<close> writes to the cache.\<close>

definition RETRY_LIMIT_MARKER :: string where
  "RETRY_LIMIT_MARKER = ''[Error al descifrar - L'' @ [CHR 0xED] @ ''mite de reintentos alcanzado]''"

definition TIMEOUT_MARKER :: string where
  "TIMEOUT_MARKER = ''[Error al descifrar - Tiempo agotado]''"

definition ERROR_MARKER :: string where
  "ERROR_MARKER = ''[Error al descifrar]''"

text \<open>A timer that fires leaves the list of pending timers.\<close>

definition expire :: "nat \<Rightarrow> hook_state \<Rightarrow> hook_state" where
  "expire tid st = st\<lparr>timers := filter (\<lambda>t. timer_id t \<noteq> tid) (timers st)\<rparr>"

text \<open>
  \<^verbatim>\<open>decryptSingleMessage\<close> up to its \<^verbatim>\<open>await\<close>: the guard on the retry count, the entry
  in the decrypting set and the 30 second timer. The result \<open>Some (retryCount,
  timeoutId)\<close> says that the decrypt call has been issued, with the values of the two
  local constants that the rest of the function uses.
\<close>

definition decryptSingleMessage_start :: "message \<Rightarrow> hook_state
    \<Rightarrow> hook_state \<times> (nat \<times> nat) option" where
  "decryptSingleMessage_start message st =
     (if \<not> mountedRef st then (st, None)
      else
        (let messageId = msg_id message;
             retryCount = (case retryCountsRef st messageId of None \<Rightarrow> 0 | Some n \<Rightarrow> n)
         in if retryCount \<ge> MAX_DECRYPTION_RETRIES
            then (st\<lparr>decryptedMessagesCache :=
                        lru_set (decryptedMessagesCache st) messageId RETRY_LIMIT_MARKER\<rparr>,
                  None)
            else
              (let st1 = st\<lparr>decryptingMessageIds := insert messageId (decryptingMessageIds st)\<rparr>;
                   (timeoutId, st2) = setTimeout (DecryptionTimeout messageId) DECRYPTION_TIMEOUT st1;
                   st3 = st2\<lparr>decryptionTimeoutsRef :=
                               (decryptionTimeoutsRef st2)(messageId \<mapsto> timeoutId)\<rparr>
               in (st3, Some (retryCount, timeoutId)))))"

text \<open>
  The handler of the 30 second timer. It reads \<^verbatim>\<open>decryptingMessageIds\<close> through the
  closure of the render in which \<^verbatim>\<open>decryptSingleMessage\<close> was created; that set is the
  parameter \<open>captured\<close>. State updates go to the current state.
\<close>

definition decryptionTimeout_fired :: "string set \<Rightarrow> string \<Rightarrow> hook_state \<Rightarrow> hook_state" where
  "decryptionTimeout_fired captured messageId st =
     (if mountedRef st \<and> messageId \<in> captured
      then st\<lparr>decryptingMessageIds := decryptingMessageIds st - {messageId},
              decryptedMessagesCache :=
                lru_set (decryptedMessagesCache st) messageId TIMEOUT_MARKER\<rparr>
      else st)"

text \<open>The rest of the \<^verbatim>\<open>try\<close> block after the call has resolved, with \<^verbatim>\<open>finally\<close>.\<close>

definition decryptSingleMessage_resolved :: "message \<Rightarrow> nat \<Rightarrow> string \<Rightarrow> hook_state
    \<Rightarrow> hook_state" where
  "decryptSingleMessage_resolved message timeoutId plaintext st =
     (let messageId = msg_id message;
          st1 = (clearTimeout timeoutId st)
                  \<lparr>decryptionTimeoutsRef := (decryptionTimeoutsRef st)(messageId := None)\<rparr>;
          st2 = (if mountedRef st1
                 then st1\<lparr>decryptedMessagesCache :=
                             lru_set (decryptedMessagesCache st1) messageId plaintext,
                          retryCountsRef := (retryCountsRef st1)(messageId := None)\<rparr>
                 else st1)
      in if mountedRef st2
         then st2\<lparr>decryptingMessageIds := decryptingMessageIds st2 - {messageId}\<rparr>
         else st2)"

text \<open>
  The \<^verbatim>\<open>catch\<close> block after the call has rejected, with \<^verbatim>\<open>finally\<close>. The second
  component is the retry timer that was set, with its delay.
\<close>

definition decryptSingleMessage_rejected :: "message \<Rightarrow> nat \<Rightarrow> nat \<Rightarrow> hook_state
    \<Rightarrow> hook_state \<times> (nat \<times> nat) option" where
  "decryptSingleMessage_rejected message retryCount timeoutId st =
     (let messageId = msg_id message;
          st1 = (clearTimeout timeoutId st)
                  \<lparr>decryptionTimeoutsRef := (decryptionTimeoutsRef st)(messageId := None)\<rparr>;
          (st2, retryTimer) =
            (if mountedRef st1
             then (if retryCount < MAX_DECRYPTION_RETRIES - 1
                   then (let delayMs = DECRYPTION_RETRY_DELAY * 2 ^ retryCount;
                             st1a = st1\<lparr>retryCountsRef :=
                                           (retryCountsRef st1)(messageId \<mapsto> retryCount + 1)\<rparr>;
                             (tid, st1b) = setTimeout (RetryDecrypt message) delayMs st1a
                         in (st1b, Some (tid, delayMs)))
                   else (st1\<lparr>decryptedMessagesCache :=
                                lru_set (decryptedMessagesCache st1) messageId ERROR_MARKER,
                             retryCountsRef := (retryCountsRef st1)(messageId := None)\<rparr>,
                         None))
             else (st1, None))
      in (if mountedRef st2
          then st2\<lparr>decryptingMessageIds := decryptingMessageIds st2 - {messageId}\<rparr>
          else st2,
          retryTimer))"

text \<open>
  The handler of the retry timer, up to its call of \<^verbatim>\<open>decryptSingleMessage\<close>, which
  follows when the component is still mounted.
\<close>

definition retryTimer_fired :: "message \<Rightarrow> hook_state \<Rightarrow> hook_state" where
  "retryTimer_fired message st =
     (if mountedRef st
      then st\<lparr>decryptingMessageIds := decryptingMessageIds st - {msg_id message}\<rparr>
      else st)"

text \<open>
  What the single-message path does for a message whose decrypt call rejects on every
  attempt: the call is issued, possibly the 30 second timer fires first
  (\<open>timesOut retryCount\<close>), the call rejects, and when a retry timer has been set it
  fires after its delay and \<^verbatim>\<open>decryptSingleMessage\<close> runs again. The trace lists the
  decrypt calls (message and number of the attempt) and the delays waited.
\<close>

datatype trace_event = DecryptCall string nat | Backoff nat

function failing_attempts :: "(nat \<Rightarrow> bool) \<Rightarrow> string set \<Rightarrow> message \<Rightarrow> hook_state
    \<Rightarrow> hook_state \<times> trace_event list" where
  "failing_attempts timesOut captured message st =
     (case decryptSingleMessage_start message st of
        (st1, None) \<Rightarrow> (st1, [])
      | (st1, Some (retryCount, timeoutId)) \<Rightarrow>
          (case decryptSingleMessage_rejected message retryCount timeoutId
                  (if timesOut retryCount
                   then decryptionTimeout_fired captured (msg_id message) (expire timeoutId st1)
                   else st1) of
             (st3, None) \<Rightarrow> (st3, [DecryptCall (msg_id message) (retryCount + 1)])
           | (st3, Some (retryTimer, delayMs)) \<Rightarrow>
               (if mountedRef st3
                then (case failing_attempts timesOut captured message
                             (retryTimer_fired message (expire retryTimer st3)) of
                        (st4, rest) \<Rightarrow>
                          (st4, DecryptCall (msg_id message) (retryCount + 1)
                                  # Backoff delayMs # rest))
                else (expire retryTimer st3,
                      [DecryptCall (msg_id message) (retryCount + 1), Backoff delayMs]))))"
  by pat_completeness auto
termination
proof (relation "measure (\<lambda>(timesOut, captured, message, st).
          MAX_DECRYPTION_RETRIES
            - (case retryCountsRef st (msg_id message) of None \<Rightarrow> 0 | Some n \<Rightarrow> n))")
  show "wf (measure (\<lambda>(timesOut, captured, message, st).
          MAX_DECRYPTION_RETRIES
            - (case retryCountsRef st (msg_id message) of None \<Rightarrow> 0 | Some n \<Rightarrow> n)))"
    by simp
next
  fix timesOut :: "nat \<Rightarrow> bool" and captured message st x st1 y z retryCount timeoutId xa st3 ya za
    retryTimer delayMs
  assume s: "(st1, y) = decryptSingleMessage_start message st" "y = Some z"
      "(retryCount, timeoutId) = z"
    and r: "(st3, ya) = decryptSingleMessage_rejected message retryCount timeoutId
              (if timesOut retryCount
               then decryptionTimeout_fired captured (msg_id message) (expire timeoutId st1)
               else st1)" "ya = Some za" "(retryTimer, delayMs) = za"
  from s have rc: "retryCount = (case retryCountsRef st (msg_id message) of None \<Rightarrow> 0 | Some n \<Rightarrow> n)"
      and lt: "retryCount < MAX_DECRYPTION_RETRIES"
    by (auto simp: decryptSingleMessage_start_def Let_def setTimeout_def split: if_splits)
  from r have "retryCountsRef st3 (msg_id message) = Some (retryCount + 1)"
    by (auto simp: decryptSingleMessage_rejected_def Let_def setTimeout_def clearTimeout_def
        split: if_splits prod.splits)
  then have "retryCountsRef (retryTimer_fired message (expire retryTimer st3)) (msg_id message)
      = Some (retryCount + 1)"
    by (simp add: retryTimer_fired_def expire_def)
  with rc lt
  show "((timesOut, captured, message, retryTimer_fired message (expire retryTimer st3)),
         timesOut, captured, message, st)
        \<in> measure (\<lambda>(timesOut, captured, message, st).
          MAX_DECRYPTION_RETRIES
            - (case retryCountsRef st (msg_id message) of None \<Rightarrow> 0 | Some n \<Rightarrow> n))"
    by (auto split: option.splits)
qed

definition retry_count :: "hook_state \<Rightarrow> string \<Rightarrow> nat" where
  "retry_count st i = (case retryCountsRef st i of None \<Rightarrow> 0 | Some n \<Rightarrow> n)"

section \<open>The decryption batcher (useChatStore.js, apiService.js)\<close>

text \<open>
  \<^verbatim>\<open>batchDecryptMessages\<close> of apiService.js. The parameter is the decryption service as
  \<^verbatim>\<open>decryptChatMessageAPI\<close> presents it: for a ciphertext and a key version, the
  plaintext or the rejection. \<^verbatim>\<open>Promise.allSettled\<close> never rejects, and every
  rejected item is replaced by a result object with a fixed text, so the function
  always fulfils with one result per item.
\<close>

definition batchDecryptMessages :: "(string \<Rightarrow> string \<Rightarrow> js_error + string)
    \<Rightarrow> (string \<times> string) list \<Rightarrow> js_error + string list" where
  "batchDecryptMessages decryptChatMessageAPI encryptedMessages =
     Inr (map (\<lambda>(ciphertext, keyVersion).
                 case decryptChatMessageAPI ciphertext keyVersion of
                   Inr plaintext \<Rightarrow> plaintext
                 | Inl reason \<Rightarrow> ''[Error: Failed to decrypt]'')
              encryptedMessages)"

text \<open>The body of \<^verbatim>\<open>results.forEach\<close> in \<^verbatim>\<open>processBatchDecryption\<close>.\<close>

definition store_batch_result :: "hook_state \<Rightarrow> string \<times> message \<Rightarrow> hook_state" where
  "store_batch_result st rm =
     (case rm of
        (plaintext, message) \<Rightarrow>
          (if mountedRef st \<and> plaintext \<noteq> []
           then st\<lparr>decryptedMessagesCache :=
                      lru_set (decryptedMessagesCache st) (msg_id message) plaintext,
                   decryptingMessageIds := decryptingMessageIds st - {msg_id message}\<rparr>
           else st))"

text \<open>
  The fallback of the \<^verbatim>\<open>catch\<close> block: \<^verbatim>\<open>decryptSingleMessage\<close> is started for every
  message of the batch; the attempts that were issued are returned.
\<close>

fun start_all :: "message list \<Rightarrow> hook_state \<Rightarrow> hook_state \<times> (message \<times> nat \<times> nat) list" where
  "start_all [] st = (st, [])"
| "start_all (m # ms) st =
     (case decryptSingleMessage_start m st of
        (st1, r) \<Rightarrow>
          (case start_all ms st1 of
             (st2, rs) \<Rightarrow>
               (st2, (case r of None \<Rightarrow> [] | Some (retryCount, timeoutId) \<Rightarrow> [(m, retryCount, timeoutId)])
                     @ rs)))"

text \<open>
  \<^verbatim>\<open>processBatchDecryption\<close>, with the follow-up batches it starts itself. The result
  is the state, the batches handed to \<^verbatim>\<open>batchDecryptMessages\<close> in order (one decrypt
  call is made for every element of a batch), and the single-message attempts started
  by the fallback.
\<close>

function processBatchDecryption :: "(string \<Rightarrow> string \<Rightarrow> js_error + string) \<Rightarrow> hook_state
    \<Rightarrow> hook_state \<times> message list list \<times> (message \<times> nat \<times> nat) list" where
  "processBatchDecryption decryptChatMessageAPI st =
     (if \<not> mountedRef st \<or> batchDecryptionQueueRef st = [] then (st, [], [])
      else
        (let batch = take MAX_CONCURRENT_DECRYPTIONS (batchDecryptionQueueRef st);
             st1 = st\<lparr>batchDecryptionQueueRef :=
                         drop MAX_CONCURRENT_DECRYPTIONS (batchDecryptionQueueRef st)\<rparr>;
             encryptedMessages = map (\<lambda>msg. (messageCiphertextKMS msg, kmsKeyVersionName msg)) batch
         in case batchDecryptMessages decryptChatMessageAPI encryptedMessages of
              Inr results \<Rightarrow>
                (let st2 = foldl store_batch_result st1 (zip results batch)
                 in if batchDecryptionQueueRef st2 \<noteq> []
                    then (case processBatchDecryption decryptChatMessageAPI st2 of
                            (st3, batches, singles) \<Rightarrow> (st3, batch # batches, singles))
                    else (st2, [batch], []))
            | Inl err \<Rightarrow>
                (case start_all batch st1 of
                   (st2, singles) \<Rightarrow> (st2, [batch], singles))))"
  by pat_completeness auto
termination
proof (relation "measure (\<lambda>(api, st). length (batchDecryptionQueueRef st))", goal_cases)
  case 1
  show ?case by simp
next
  case 2
  have q: "batchDecryptionQueueRef (foldl store_batch_result s xs) = batchDecryptionQueueRef s"
    for s xs
    by (induction xs arbitrary: s) (auto simp: store_batch_result_def)
  from 2 show ?case
    by (auto simp: q MAX_CONCURRENT_DECRYPTIONS_def)
qed

text \<open>\<^verbatim>\<open>queueBatchDecryption\<close>: the message joins the queue and the 100 ms timer is restarted.\<close>

definition queueBatchDecryption :: "message \<Rightarrow> hook_state \<Rightarrow> hook_state" where
  "queueBatchDecryption message st =
     (if messageCiphertextKMS message = []
         \<or> lru_has (decryptedMessagesCache st) (msg_id message)
      then st
      else
        (let st1 = st\<lparr>batchDecryptionQueueRef := batchDecryptionQueueRef st @ [message]\<rparr>;
             st2 = (case batchDecryptionTimeoutRef st1 of
                      None \<Rightarrow> st1
                    | Some t \<Rightarrow> (if t = 0 then st1 else clearTimeout t st1));
             (tid, st3) = setTimeout ProcessBatch 100 st2
         in st3\<lparr>batchDecryptionTimeoutRef := Some tid\<rparr>))"

text \<open>
  \<^verbatim>\<open>decryptMessageIfNeeded\<close>; \<open>captured\<close> is the set \<^verbatim>\<open>decryptingMessageIds\<close> of the
  render in which the callback was created.
\<close>

definition decryptMessageIfNeeded :: "string set \<Rightarrow> message \<Rightarrow> hook_state \<Rightarrow> hook_state" where
  "decryptMessageIfNeeded captured message st =
     (if messageCiphertextKMS message = []
         \<or> kmsKeyVersionName message = []
         \<or> lru_has (decryptedMessagesCache st) (msg_id message)
         \<or> msg_id message \<in> captured
      then st
      else queueBatchDecryption message st)"

text \<open>A ciphertext message, and two decryption services: one that answers, one that
  rejects every call with a network error.\<close>

definition demo_message :: message where
  "demo_message = \<lparr>msg_id = ''m1'', messageCiphertextKMS = ''CIPHERTEXT'',
     kmsKeyVersionName = ''key/1'', originalSender = ''user'', sender = [], text_field = [],
     timestamp = 5\<rparr>"

definition answering_service :: "string \<Rightarrow> string \<Rightarrow> js_error + string" where
  "answering_service ciphertext keyVersion = Inr ''Hello''"

definition unreachable_service :: "string \<Rightarrow> string \<Rightarrow> js_error + string" where
  "unreachable_service ciphertext keyVersion =
     Inl (Error ''Unable to decrypt message. Please check your connection and try again.'')"

text \<open>States used in the examples: the message requested once and twice from the initial
  state, and the state in which its first single-message attempt is in flight.\<close>

definition once_enqueued :: hook_state where
  "once_enqueued = decryptMessageIfNeeded {} demo_message (initial_state ''u1'')"

definition twice_enqueued :: hook_state where
  "twice_enqueued = decryptMessageIfNeeded {} demo_message
                      (decryptMessageIfNeeded {} demo_message (initial_state ''u1''))"

definition first_attempt_in_flight :: hook_state where
  "first_attempt_in_flight = fst (decryptSingleMessage_start demo_message (initial_state ''u1''))"

text \<open>
  A store with one chat that holds one ciphertext message, the hook state after the
  subscription has delivered it and the single-message decryption of that message has
  been started (the call is in flight), and an environment in which the store rejects
  the deletion of a document.
\<close>

definition stored_chat :: firestore where
  "stored_chat = [(''chat1'', \<lparr>userId = ''u1'', title = ''Hello'', createdAt = 6,
                               messages = [demo_message]\<rparr>)]"

definition viewed_message :: message where
  "viewed_message = demo_message\<lparr>sender := ''user''\<rparr>"

definition viewing_state :: hook_state where
  "viewing_state =
     fst (decryptSingleMessage_start viewed_message
            (onSnapshot_push quiet_env (subscription_snapshot stored_chat ''u1'')
               (initial_state ''u1'')))"

definition delete_failing_env :: mutator_env where
  "delete_failing_env = demo_env\<lparr>deleteDoc_fault :=
     Some \<lparr>err_name = ''FirebaseError'', err_message = ''unavailable'',
           err_code = ''unavailable''\<rparr>\<rparr>"

section \<open>Facts about the ordered map\<close>

lemma keys_map_delete: "map_keys (map_delete m k) = filter (\<lambda>a. a \<noteq> k) (map_keys m)"
  by (induction m) (auto simp: map_keys_def)

lemma keys_map_set:
  "map_keys (map_set m k v) = (if k \<in> set (map_keys m) then map_keys m else map_keys m @ [k])"
  by (induction m) (force simp: map_keys_def)+

lemma length_map_delete: "length (map_delete m k) \<le> length m"
  by (induction m) (auto simp: le_SucI)

lemma length_map_set: "length (map_set m k v) \<le> Suc (length m)"
  by (induction m) auto

lemma map_of_map_set: "map_of (map_set m k v) k = Some v"
  by (induction m) auto

lemma map_has_iff: "map_has m k \<longleftrightarrow> map_of m k \<noteq> None"
  by (induction m) (auto simp: map_has_def)

lemma map_delete_absent: "k \<notin> set (map_keys m) \<Longrightarrow> map_delete m k = m"
  by (induction m) (auto simp: map_keys_def)

lemma length_map_delete_present:
  "k \<in> set (map_keys m) \<Longrightarrow> length (map_delete m k) < length m"
proof (induction m)
  case Nil
  then show ?case by (simp add: map_keys_def)
next
  case (Cons p m)
  obtain a b where p: "p = (a, b)" by (cases p)
  have "length (map_delete m k) \<le> length m" by (rule length_map_delete)
  with Cons p show ?case by (auto simp: map_keys_def)
qed

lemma size_evict:
  assumes "0 < maxSize c" "lru_size c \<le> maxSize c"
  shows "Suc (lru_size (evict_oldest c)) \<le> maxSize c \<and> maxSize (evict_oldest c) = maxSize c"
proof (cases "cache c")
  case Nil
  with assms show ?thesis by (simp add: evict_oldest_def lru_size_def)
next
  case (Cons p rest)
  obtain a b where p: "p = (a, b)" by (cases p)
  have "length (map_delete rest a) \<le> length rest" by (rule length_map_delete)
  with assms Cons p show ?thesis
    by (auto simp: evict_oldest_def lru_size_def)
qed

lemma size_lru_get:
  "lru_size (snd (lru_get c k)) \<le> lru_size c \<and> maxSize (snd (lru_get c k)) = maxSize c"
proof (cases "map_of (cache c) k")
  case None
  then show ?thesis by (simp add: lru_get_def map_get_def)
next
  case (Some val)
  then have "k \<in> set (map_keys (cache c))"
    by (metis map_has_def map_has_iff map_keys_def option.distinct(1))
  then have "length (map_delete (cache c) k) < length (cache c)"
    by (rule length_map_delete_present)
  moreover have "length (map_set (map_delete (cache c) k) k val) \<le> Suc (length (map_delete (cache c) k))"
    by (rule length_map_set)
  ultimately show ?thesis using Some
    by (simp add: lru_get_def map_get_def lru_size_def)
qed

lemma size_lru_set:
  assumes "0 < maxSize c" "lru_size c \<le> maxSize c"
  shows "lru_size (lru_set c k v) \<le> maxSize c \<and> maxSize (lru_set c k v) = maxSize c"
proof -
  have "lru_size (lru_set c k v) \<le> Suc (lru_size (evict_oldest c))"
    by (simp add: lru_set_def lru_size_def Let_def length_map_set)
  with size_evict[OF assms] show ?thesis
    by (simp add: lru_set_def Let_def)
qed

lemma size_apply_op:
  assumes "0 < maxSize c" "lru_size c \<le> maxSize c"
  shows "lru_size (apply_op x c) \<le> maxSize c \<and> maxSize (apply_op x c) = maxSize c"
proof (cases x)
  case (Get k)
  with assms size_lru_get[of c k] show ?thesis by simp
next
  case (Set k v)
  with size_lru_set[OF assms] show ?thesis by simp
next
  case (Has k)
  with assms show ?thesis by simp
next
  case Clear
  with assms show ?thesis by (simp add: lru_clear_def lru_size_def)
qed

lemma size_run_ops:
  "0 < maxSize c \<Longrightarrow> lru_size c \<le> maxSize c \<Longrightarrow>
   lru_size (run_ops ops c) \<le> maxSize c \<and> maxSize (run_ops ops c) = maxSize c"
proof (induction ops arbitrary: c)
  case Nil
  then show ?case by simp
next
  case (Cons x xs)
  from size_apply_op[OF Cons.prems, of x]
  have a: "lru_size (apply_op x c) \<le> maxSize (apply_op x c)" "0 < maxSize (apply_op x c)"
    and m: "maxSize (apply_op x c) = maxSize c"
    using Cons.prems by simp_all
  from Cons.IH[OF a(2) a(1)] m show ?case by simp
qed

lemma lru_run_stamped: "lru (run_stamped ops s) = run_ops ops (lru s)"
proof (induction ops arbitrary: s)
  case Nil
  show ?case by simp
next
  case (Cons x xs)
  have "lru (stamp_op x s) = apply_op x (lru s)" by (cases x) simp_all
  with Cons show ?case by simp
qed

lemma sorted_stamps_filter:
  "sorted_wrt (<) (map t ks) \<Longrightarrow> sorted_wrt (<) (map t (filter P ks))"
  by (induction ks) auto

lemma map_upd_other: "k \<notin> set ks \<Longrightarrow> map (t(k := n)) ks = map t ks"
  by (induction ks) auto

lemma keys_evict:
  "lru_keys (evict_oldest c) =
     (if maxSize c \<le> lru_size c
      then (case lru_keys c of [] \<Rightarrow> [] | a # _ \<Rightarrow> filter (\<lambda>x. x \<noteq> a) (lru_keys c))
      else lru_keys c)"
proof (cases "cache c")
  case Nil
  then show ?thesis by (simp add: evict_oldest_def lru_keys_def lru_size_def map_keys_def)
next
  case (Cons p rest)
  obtain a b where p: "p = (a, b)" by (cases p)
  have k: "lru_keys c = a # map_keys rest"
    using Cons p by (simp add: lru_keys_def map_keys_def)
  have "lru_keys (c\<lparr>cache := map_delete (cache c) a\<rparr>) = filter (\<lambda>x. x \<noteq> a) (lru_keys c)"
    by (simp add: lru_keys_def keys_map_delete)
  with Cons p k show ?thesis
    by (simp add: evict_oldest_def lru_size_def)
qed

lemma lru_has_keys: "lru_has c k \<longleftrightarrow> k \<in> set (lru_keys c)"
  by (simp add: lru_has_def map_has_def lru_keys_def map_keys_def)

lemma keys_evict_filter: "\<exists>P. lru_keys (evict_oldest c) = filter P (lru_keys c)"
proof (cases "maxSize c \<le> lru_size c \<and> lru_keys c \<noteq> []")
  case True
  then obtain a rest where "lru_keys c = a # rest" by (cases "lru_keys c") auto
  with True have "lru_keys (evict_oldest c) = filter (\<lambda>x. x \<noteq> a) (lru_keys c)"
    by (simp add: keys_evict)
  then show ?thesis by blast
next
  case False
  then have "lru_keys (evict_oldest c) = filter (\<lambda>_. True) (lru_keys c)"
    by (auto simp: keys_evict)
  then show ?thesis by blast
qed

lemma keys_lru_set:
  "lru_keys (lru_set c k v) =
     (if k \<in> set (lru_keys (evict_oldest c)) then lru_keys (evict_oldest c)
      else lru_keys (evict_oldest c) @ [k])"
  by (simp add: lru_set_def lru_keys_def Let_def keys_map_set)

lemma keys_lru_get:
  "lru_has c k \<Longrightarrow> lru_keys (snd (lru_get c k)) = filter (\<lambda>a. a \<noteq> k) (lru_keys c) @ [k]"
  by (cases "map_of (cache c) k")
     (auto simp: lru_has_def lru_get_def map_get_def map_has_iff lru_keys_def keys_map_set
        keys_map_delete)

lemma keys_lru_get_absent: "\<not> lru_has c k \<Longrightarrow> snd (lru_get c k) = c"
  by (simp add: lru_has_def lru_get_def)

lemma ordered_append:
  assumes "sorted_wrt (<) (map t ks)" "list_all (\<lambda>a. t a < n) ks" "distinct ks" "k \<notin> set ks"
  shows "sorted_wrt (<) (map (t(k := n)) (ks @ [k]))
     \<and> list_all (\<lambda>a. (t(k := n)) a < Suc n) (ks @ [k]) \<and> distinct (ks @ [k])"
  using assms by (auto simp: sorted_wrt_append list_all_iff map_upd_other)

lemma ordered_filter:
  assumes "sorted_wrt (<) (map t ks)" "list_all (\<lambda>a. t a < n) ks" "distinct ks"
  shows "sorted_wrt (<) (map t (filter P ks))
     \<and> list_all (\<lambda>a. t a < n) (filter P ks) \<and> distinct (filter P ks)"
  using assms by (auto simp: sorted_stamps_filter list_all_iff)

lemma stamps_ordered_step:
  assumes "stamps_ordered s"
  shows "stamps_ordered (stamp_op x s)"
proof (cases x)
  case (Get k)
  show ?thesis
  proof (cases "lru_has (lru s) k")
    case True
    let ?ks = "filter (\<lambda>a. a \<noteq> k) (lru_keys (lru s))"
    from assms have f: "sorted_wrt (<) (map (touched s) ?ks)"
        "list_all (\<lambda>a. touched s a < clock s) ?ks" "distinct ?ks"
      using ordered_filter[of "touched s" "lru_keys (lru s)" "clock s"]
      by (simp_all add: stamps_ordered_def)
    have "k \<notin> set ?ks" by simp
    have a: "lru_keys (lru (stamp_op x s)) = ?ks @ [k]"
      using True Get by (simp add: keys_lru_get)
    have b: "touched (stamp_op x s) = (touched s)(k := clock s)"
      using True Get by simp
    have c: "clock (stamp_op x s) = Suc (clock s)"
      using Get by simp
    from ordered_append[OF f \<open>k \<notin> set ?ks\<close>] show ?thesis
      unfolding stamps_ordered_def a b c .
  next
    case False
    with assms Get show ?thesis
      by (auto simp: stamps_ordered_def keys_lru_get_absent list_all_iff less_SucI)
  qed
next
  case (Set k v)
  obtain P where P: "lru_keys (evict_oldest (lru s)) = filter P (lru_keys (lru s))"
    using keys_evict_filter by blast
  let ?ks = "filter P (lru_keys (lru s))"
  from assms have f: "sorted_wrt (<) (map (touched s) ?ks)"
      "list_all (\<lambda>a. touched s a < clock s) ?ks" "distinct ?ks"
    using ordered_filter[of "touched s" "lru_keys (lru s)" "clock s"]
    by (simp_all add: stamps_ordered_def)
  show ?thesis
  proof (cases "k \<in> set ?ks")
    case True
    with f P Set show ?thesis
      by (auto simp: stamps_ordered_def keys_lru_set lru_has_keys list_all_iff less_SucI)
  next
    case False
    have a: "lru_keys (lru (stamp_op x s)) = ?ks @ [k]"
      using False P Set by (simp add: keys_lru_set)
    have b: "touched (stamp_op x s) = (touched s)(k := clock s)"
      using False P Set by (auto simp: lru_has_keys)
    have c: "clock (stamp_op x s) = Suc (clock s)"
      using Set by simp
    from ordered_append[OF f False] show ?thesis
      unfolding stamps_ordered_def a b c .
  qed
next
  case (Has k)
  with assms show ?thesis by (auto simp: stamps_ordered_def list_all_iff less_SucI)
next
  case Clear
  then show ?thesis by (simp add: stamps_ordered_def lru_clear_def lru_keys_def map_keys_def)
qed

lemma stamps_ordered_run: "stamps_ordered s \<Longrightarrow> stamps_ordered (run_stamped ops s)"
  by (induction ops arbitrary: s) (simp_all add: stamps_ordered_step)

lemma stamps_ordered_new: "stamps_ordered (stamped_new n)"
  by (simp add: stamps_ordered_def stamped_new_def LRUCache_new_def lru_keys_def map_keys_def)


lemma keys_evict_full:
  assumes "distinct (lru_keys c)" "maxSize c \<le> lru_size c" "lru_keys c = e # rest"
  shows "lru_keys (evict_oldest c) = rest"
proof -
  from assms(1,3) have "e \<notin> set rest" by simp
  then have "filter (\<lambda>x. x \<noteq> e) rest = rest" by (induction rest) auto
  with assms(2,3) show ?thesis by (simp add: keys_evict)
qed

lemma keys_evict_room: "lru_size c < maxSize c \<Longrightarrow> evict_oldest c = c"
  by (simp add: evict_oldest_def lru_size_def)

lemma maxSize_new_run: "0 < n \<Longrightarrow> maxSize (run_ops ops (LRUCache_new n)) = n"
  using size_run_ops[of "LRUCache_new n" ops] by (simp add: LRUCache_new_def lru_size_def)

lemma lookup_lru_set: "map_get (cache (lru_set c k v)) k = Some v"
  by (simp add: lru_set_def Let_def map_get_def map_of_map_set)

subsection \<open>The cache stays within its capacity and evicts the least recently touched entry\<close>

text \<open>
  Claim C2. For every sequence of get/set (and has/clear) operations on a cache created
  with a capacity \<open>n\<close> of at least one entry, the size never exceeds \<open>n\<close>. When the
  cache is full, \<^verbatim>\<open>set\<close> removes the first key \<open>e\<close> of the map, and \<open>e\<close> is the
  key whose last touch (insertion as a new key, or successful \<^verbatim>\<open>get\<close>) is older than
  that of every other key; a \<^verbatim>\<open>get\<close> of a present key moves it behind all other keys
  and gives it the newest stamp. With capacity 3, the sequence set A, set B, set C,
  get A, set D leaves exactly C, A, D: B has been evicted.
\<close>

theorem lru_cache_bounded_and_evicts_least_recent:
  fixes ops :: "('k, 'v) cache_op list"
  assumes "0 < n"
  shows "lru_size (run_ops ops (LRUCache_new n)) \<le> n
    \<and> (let s = run_stamped ops (stamped_new n); c = run_ops ops (LRUCache_new n) in
         lru s = c
         \<and> (n \<le> lru_size c \<longrightarrow>
              (\<exists>e rest. lru_keys c = e # rest
                 \<and> (\<forall>k' \<in> set rest. touched s e < touched s k')
                 \<and> lru_keys (lru_set c k v) = (if k \<in> set rest then rest else rest @ [k])))
         \<and> (lru_size c < n \<longrightarrow>
              lru_keys (lru_set c k v)
                = (if k \<in> set (lru_keys c) then lru_keys c else lru_keys c @ [k]))
         \<and> (lru_has c k \<longrightarrow>
              lru_keys (snd (lru_get c k)) = filter (\<lambda>a. a \<noteq> k) (lru_keys c) @ [k]
              \<and> touched (stamp_op (Get k) s) k = clock s
              \<and> (\<forall>k' \<in> set (lru_keys c). touched s k' < clock s)))
    \<and> lru_keys (run_ops [Set ''A'' (1::nat), Set ''B'' 2, Set ''C'' 3, Get ''A'', Set ''D'' 4]
          (LRUCache_new 3)) = [''C'', ''A'', ''D'']"
proof -
  define s :: "('k, 'v) stamped" where "s = run_stamped ops (stamped_new n)"
  define c where "c = run_ops ops (LRUCache_new n)"
  have sc: "lru s = c"
    by (simp add: s_def c_def lru_run_stamped stamped_new_def)
  have ord: "stamps_ordered s"
    unfolding s_def by (rule stamps_ordered_run[OF stamps_ordered_new])
  have bound: "lru_size c \<le> n" and mx: "maxSize c = n"
    using size_run_ops[of "LRUCache_new n" ops] assms
    by (simp_all add: c_def LRUCache_new_def lru_size_def)
  have full: "\<exists>e rest. lru_keys c = e # rest
                 \<and> (\<forall>k' \<in> set rest. touched s e < touched s k')
                 \<and> lru_keys (lru_set c k v) = (if k \<in> set rest then rest else rest @ [k])"
    if "n \<le> lru_size c"
  proof -
    from that assms have "lru_keys c \<noteq> []"
      by (auto simp: lru_size_def lru_keys_def map_keys_def)
    then obtain e rest where er: "lru_keys c = e # rest" by (cases "lru_keys c") auto
    from ord sc er have "sorted_wrt (<) (map (touched s) (e # rest))" and d: "distinct (lru_keys c)"
      by (simp_all add: stamps_ordered_def)
    then have least: "\<forall>k' \<in> set rest. touched s e < touched s k'" by auto
    have "lru_keys (evict_oldest c) = rest"
      using keys_evict_full[OF d _ er] that mx by simp
    then have "lru_keys (lru_set c k v) = (if k \<in> set rest then rest else rest @ [k])"
      by (simp add: keys_lru_set)
    with er least show ?thesis by blast
  qed
  have room: "lru_keys (lru_set c k v)
                = (if k \<in> set (lru_keys c) then lru_keys c else lru_keys c @ [k])"
    if "lru_size c < n"
    using that mx by (simp add: keys_lru_set keys_evict_room)
  have got: "lru_keys (snd (lru_get c k)) = filter (\<lambda>a. a \<noteq> k) (lru_keys c) @ [k]
              \<and> touched (stamp_op (Get k) s) k = clock s
              \<and> (\<forall>k' \<in> set (lru_keys c). touched s k' < clock s)"
    if "lru_has c k"
    using that ord sc by (simp add: keys_lru_get stamps_ordered_def list_all_iff)
  have example: "lru_keys (run_ops [Set ''A'' (1::nat), Set ''B'' 2, Set ''C'' 3, Get ''A'', Set ''D'' 4]
          (LRUCache_new 3)) = [''C'', ''A'', ''D'']"
    by (simp add: LRUCache_new_def lru_set_def lru_get_def evict_oldest_def lru_keys_def
        map_keys_def map_has_def map_get_def)
  from bound sc full room got example show ?thesis
    unfolding s_def[symmetric] c_def[symmetric] Let_def by blast
qed

theorem lru_cache_bounded_and_evicts_least_recent_witness:
  "(0::nat) < 3
   \<and> lru_size (run_ops [Set ''A'' (1::nat), Set ''B'' 2, Set ''C'' 3, Get ''A''] (LRUCache_new 3)) \<le> 3
   \<and> lru_keys (lru_set (run_ops [Set ''A'' (1::nat), Set ''B'' 2, Set ''C'' 3, Get ''A''] (LRUCache_new 3))
         ''D'' 4) = [''C'', ''A'', ''D'']"
proof -
  have h: "(0::nat) < 3" by simp
  have k: "lru_keys (run_ops [Set ''A'' (1::nat), Set ''B'' 2, Set ''C'' 3, Get ''A''] (LRUCache_new 3))
      = [''B'', ''C'', ''A'']"
    by (simp add: LRUCache_new_def lru_set_def lru_get_def evict_oldest_def lru_keys_def
        map_keys_def map_has_def map_get_def)
  have z: "lru_size (run_ops [Set ''A'' (1::nat), Set ''B'' 2, Set ''C'' 3, Get ''A''] (LRUCache_new 3)) = 3"
    by (simp add: LRUCache_new_def lru_set_def lru_get_def evict_oldest_def lru_size_def
        map_has_def map_get_def)
  from lru_cache_bounded_and_evicts_least_recent
         [OF h, of "[Set ''A'' (1::nat), Set ''B'' 2, Set ''C'' 3, Get ''A'']" "''D''" 4]
  show ?thesis
    unfolding Let_def k z by simp
qed

subsection \<open>Writing a key that is already present\<close>

text \<open>
  Claim C10, as amended. For a key \<open>k\<close> already present, \<^verbatim>\<open>set(k, v)\<close> overwrites
  the value. Below capacity the key order is unchanged. At capacity the first (least
  recently touched) key is deleted before the write even though the write adds no
  entry: when that key is another key, this unrelated entry is lost, the size drops
  by one and \<open>k\<close> keeps its place among the remaining keys; when that key is \<open>k\<close>
  itself, \<open>k\<close> is deleted and inserted again, so it moves to the most recent
  position and nothing is lost.
\<close>

theorem lru_set_on_present_key:
  assumes "distinct (lru_keys c)" and "lru_has c k"
  shows "map_get (cache (lru_set c k v)) k = Some v
    \<and> (lru_size c < maxSize c \<longrightarrow> lru_keys (lru_set c k v) = lru_keys c)
    \<and> (maxSize c \<le> lru_size c \<and> hd (lru_keys c) \<noteq> k \<longrightarrow>
          lru_keys (lru_set c k v) = tl (lru_keys c)
          \<and> hd (lru_keys c) \<notin> set (lru_keys (lru_set c k v))
          \<and> Suc (lru_size (lru_set c k v)) = lru_size c)
    \<and> (maxSize c \<le> lru_size c \<and> hd (lru_keys c) = k \<longrightarrow>
          lru_keys (lru_set c k v) = tl (lru_keys c) @ [k])"
proof -
  from assms(2) have mem: "k \<in> set (lru_keys c)" by (simp add: lru_has_keys)
  then obtain e rest where er: "lru_keys c = e # rest" by (cases "lru_keys c") auto
  have sz: "lru_size c = length (lru_keys c)" "lru_size (lru_set c k v) = length (lru_keys (lru_set c k v))"
    by (simp_all add: lru_size_def lru_keys_def map_keys_def)
  have room: "lru_keys (lru_set c k v) = lru_keys c" if "lru_size c < maxSize c"
    using that mem by (simp add: keys_lru_set keys_evict_room)
  have ev: "lru_keys (evict_oldest c) = rest" if "maxSize c \<le> lru_size c"
    using keys_evict_full[OF assms(1) that er] .
  have other: "lru_keys (lru_set c k v) = tl (lru_keys c)
          \<and> hd (lru_keys c) \<notin> set (lru_keys (lru_set c k v))
          \<and> Suc (lru_size (lru_set c k v)) = lru_size c"
    if "maxSize c \<le> lru_size c" "hd (lru_keys c) \<noteq> k"
    using ev[OF that(1)] that(2) mem er assms(1) by (simp add: keys_lru_set sz)
  have first: "lru_keys (lru_set c k v) = tl (lru_keys c) @ [k]"
    if "maxSize c \<le> lru_size c" "hd (lru_keys c) = k"
    using ev[OF that(1)] that(2) er assms(1) by (simp add: keys_lru_set)
  from lookup_lru_set[of c k v] room other first show ?thesis by blast
qed

theorem lru_set_on_present_key_witness:
  "distinct [''A'', ''B'', ''C''] \<and> lru_has \<lparr>maxSize = 3, cache = [(''A'', 1::nat), (''B'', 2), (''C'', 3)]\<rparr> ''B''
   \<and> lru_keys (lru_set \<lparr>maxSize = 3, cache = [(''A'', 1::nat), (''B'', 2), (''C'', 3)]\<rparr> ''B'' 7)
       = [''B'', ''C'']
   \<and> map_get (cache (lru_set \<lparr>maxSize = 3, cache = [(''A'', 1::nat), (''B'', 2), (''C'', 3)]\<rparr> ''B'' 7)) ''B''
       = Some 7"
proof -
  let ?c = "\<lparr>maxSize = 3, cache = [(''A'', 1::nat), (''B'', 2), (''C'', 3)]\<rparr>"
  have d: "distinct (lru_keys ?c)" by (simp add: lru_keys_def map_keys_def)
  have h: "lru_has ?c ''B''" by (simp add: lru_has_def map_has_def)
  from lru_set_on_present_key[OF d h, of 7] show ?thesis
    by (simp add: lru_keys_def map_keys_def lru_size_def lru_has_def map_has_def)
qed

text \<open>
  The claim as first stated (\<^verbatim>\<open>set\<close> on a present key never refreshes its position)
  fails when the key is the oldest one of a full cache: after set A, set B, set C on a
  cache of capacity 3, writing A again moves A from the oldest to the newest position.
\<close>

theorem lru_set_on_present_key_counterexample:
  "run_ops [Set ''A'' (1::nat), Set ''B'' 2, Set ''C'' 3] (LRUCache_new 3)
     = \<lparr>maxSize = 3, cache = [(''A'', 1), (''B'', 2), (''C'', 3)]\<rparr>
   \<and> lru_has \<lparr>maxSize = 3, cache = [(''A'', 1::nat), (''B'', 2), (''C'', 3)]\<rparr> ''A''
   \<and> lru_keys \<lparr>maxSize = 3, cache = [(''A'', 1::nat), (''B'', 2), (''C'', 3)]\<rparr> = [''A'', ''B'', ''C'']
   \<and> lru_keys (lru_set \<lparr>maxSize = 3, cache = [(''A'', 1::nat), (''B'', 2), (''C'', 3)]\<rparr> ''A'' 9)
       = [''B'', ''C'', ''A'']"
  by (simp add: LRUCache_new_def lru_has_def map_has_def lru_keys_def map_keys_def lru_set_def
      evict_oldest_def)

section \<open>The chat mutator\<close>

lemma map_set_append_fresh:
  "k \<notin> set (map_keys db) \<Longrightarrow>
     map_of db k = None \<and> map_set (db @ [(k, d)]) k d' = db @ [(k, d')]"
  by (induction db) (auto simp: map_keys_def)

lemma trim_hello: "trim ''Hello'' = ''Hello''"
  by (simp add: trim_def is_space_def)

lemma addMessageToChat_writes:
  assumes "addMessageToChat env chatId txt sndr st db = (Inr (), st', db')"
  shows "\<exists>ct kv d. encryptChatMessageAPI env (trim txt) = Inr (ct, kv)
         \<and> map_of db chatId = Some d
         \<and> db' = map_set db chatId
                  (d\<lparr>messages := arrayUnion (messageToStore_of env ct kv sndr) (messages d)\<rparr>)"
  using assms
  by (auto simp: addMessageToChat_def addMessageToChat_try_def updateDoc_def Let_def
      messageToStore_of_def split: if_splits sum.splits option.splits prod.splits)

lemma createNewChat_writes:
  assumes "createNewChat env txt st db = (Inr ref, st', db')"
    and fresh: "newDocId env \<notin> set (map_keys db)"
  shows "\<exists>ct kv. encryptChatMessageAPI env (trim txt) = Inr (ct, kv)
         \<and> ref = newDocId env
         \<and> db' = db @ [(ref, (chatData_of env txt st)
                                \<lparr>messages := [messageToStore_of env ct kv ''user'']\<rparr>)]"
  using assms(1)
  by (auto simp: createNewChat_def createNewChat_try_def addDoc_def updateDoc_def Let_def
      messageToStore_of_def chatData_of_def arrayUnion_def map_set_append_fresh[OF fresh]
      split: if_splits sum.splits option.splits prod.splits)

subsection \<open>What the mutator hands to the store\<close>

text \<open>
  Claim C1, as amended. Whenever \<^verbatim>\<open>addMessageToChat\<close> accepts a plaintext, the only
  write is the append of one message whose content fields are the ciphertext and the
  key version that the encryption service returned for the trimmed plaintext; the
  other fields are a fresh identifier, the sender tag and a time stamp, and the legacy
  plaintext field stays empty. Whenever \<^verbatim>\<open>createNewChat\<close> accepts a plaintext, the
  first message is stored in the same way, but the chat document also carries a
  title, which is the first 40 characters of the plaintext (followed by three dots
  when the plaintext is longer), in the clear.
\<close>

theorem mutator_stores_ciphertext_and_plain_title:
  "(addMessageToChat env chatId txt sndr st db = (Inr (), st', db') \<longrightarrow>
      (\<exists>ct kv d. encryptChatMessageAPI env (trim txt) = Inr (ct, kv)
         \<and> map_of db chatId = Some d
         \<and> db' = map_set db chatId
                  (d\<lparr>messages := arrayUnion (messageToStore_of env ct kv sndr) (messages d)\<rparr>)))
   \<and> (createNewChat env txt st db = (Inr ref, st', db') \<and> newDocId env \<notin> set (map_keys db) \<longrightarrow>
      (\<exists>ct kv. encryptChatMessageAPI env (trim txt) = Inr (ct, kv)
         \<and> ref = newDocId env
         \<and> db' = db @ [(ref, \<lparr>userId = userId_arg st,
                               title = take 40 txt @ (if length txt > 40 then ''...'' else []),
                               createdAt = serverTimestamp env,
                               messages = [messageToStore_of env ct kv ''user'']\<rparr>)]))
   \<and> text_field (messageToStore_of env ct kv sndr) = []
   \<and> messageCiphertextKMS (messageToStore_of env ct kv sndr) = ct"
proof (intro conjI impI)
  assume "addMessageToChat env chatId txt sndr st db = (Inr (), st', db')"
  then show "\<exists>ct kv d. encryptChatMessageAPI env (trim txt) = Inr (ct, kv)
         \<and> map_of db chatId = Some d
         \<and> db' = map_set db chatId
                  (d\<lparr>messages := arrayUnion (messageToStore_of env ct kv sndr) (messages d)\<rparr>)"
    by (rule addMessageToChat_writes)
next
  assume a: "createNewChat env txt st db = (Inr ref, st', db') \<and> newDocId env \<notin> set (map_keys db)"
  from createNewChat_writes[of env "txt" st db ref "st'" "db'"] a
  show "\<exists>ct kv. encryptChatMessageAPI env (trim txt) = Inr (ct, kv)
         \<and> ref = newDocId env
         \<and> db' = db @ [(ref, \<lparr>userId = userId_arg st,
                               title = take 40 txt @ (if length txt > 40 then ''...'' else []),
                               createdAt = serverTimestamp env,
                               messages = [messageToStore_of env ct kv ''user'']\<rparr>)]"
    by (simp add: chatData_of_def)
qed (simp_all add: messageToStore_of_def)

theorem mutator_stores_ciphertext_and_plain_title_witness:
  "createNewChat demo_env ''Hello'' (initial_state ''u1'') []
     = (Inr ''chat1'', (initial_state ''u1'')\<lparr>error := None\<rparr>,
        [(''chat1'', \<lparr>userId = ''u1'', title = ''Hello'', createdAt = 6,
            messages = [messageToStore_of demo_env ''CIPHERTEXT'' ''key/1'' ''user'']\<rparr>)])
   \<and> newDocId demo_env \<notin> set (map_keys [])
   \<and> encryptChatMessageAPI demo_env (trim ''Hello'') = Inr (''CIPHERTEXT'', ''key/1'')"
proof -
  have run: "createNewChat demo_env ''Hello'' (initial_state ''u1'') []
     = (Inr ''chat1'', (initial_state ''u1'')\<lparr>error := None\<rparr>,
        [(''chat1'', \<lparr>userId = ''u1'', title = ''Hello'', createdAt = 6,
            messages = [messageToStore_of demo_env ''CIPHERTEXT'' ''key/1'' ''user'']\<rparr>)])"
    by (simp add: createNewChat_def createNewChat_try_def addDoc_def updateDoc_def Let_def
        trim_hello demo_env_def initial_state_def arrayUnion_def messageToStore_of_def)
  have fresh: "newDocId demo_env \<notin> set (map_keys [])"
    by (simp add: map_keys_def)
  from mutator_stores_ciphertext_and_plain_title
         [of demo_env "''chat1''" "''Hello''" "''user''" "initial_state ''u1''" "[]"
             "(initial_state ''u1'')\<lparr>error := None\<rparr>"
             "[(''chat1'', \<lparr>userId = ''u1'', title = ''Hello'', createdAt = 6,
                 messages = [messageToStore_of demo_env ''CIPHERTEXT'' ''key/1'' ''user'']\<rparr>)]"
             "''chat1''"]
       run fresh
  show ?thesis by (simp add: demo_env_def trim_hello)
qed

text \<open>
  The claim as first stated (nothing derived from the plaintext reaches the store
  unencrypted) fails for \<^verbatim>\<open>createNewChat\<close>: creating a chat with the text Hello stores a
  document whose title is Hello, whatever the ciphertext is.
\<close>

theorem mutator_plaintext_title_counterexample:
  "snd (snd (createNewChat demo_env ''Hello'' (initial_state ''u1'') []))
     = [(''chat1'', \<lparr>userId = ''u1'', title = ''Hello'', createdAt = 6,
          messages = [\<lparr>msg_id = ''m1'', messageCiphertextKMS = ''CIPHERTEXT'',
                       kmsKeyVersionName = ''key/1'', originalSender = ''user'',
                       sender = [], text_field = [], timestamp = 5\<rparr>]\<rparr>)]"
  by (simp add: createNewChat_def createNewChat_try_def addDoc_def updateDoc_def Let_def trim_hello
      demo_env_def initial_state_def arrayUnion_def)

subsection \<open>Failures of the mutator\<close>

lemma trim_no_break_space:
  "trim [CHR 0xA0, CHR ''H'', CHR ''i'', CHR 0xA0] = ''Hi'' \<and> trim [CHR 0xA0] = []"
  by (simp add: trim_def is_space_def)

lemma chats_purge_message: "chats (purge_message st m) = chats st"
  by (simp add: purge_message_def clearTimeout_def Let_def split: option.splits)

lemma chats_foldl_purge: "chats (foldl purge_message st ms) = chats st"
  by (induction ms arbitrary: st) (simp_all add: chats_purge_message)

lemma purge_message_ids:
  "decryptingMessageIds (purge_message st m) = decryptingMessageIds st - {msg_id m}
   \<and> retryCountsRef (purge_message st m) = (retryCountsRef st)(msg_id m := None)"
  by (simp add: purge_message_def clearTimeout_def Let_def split: option.splits)

lemma foldl_purge_ids:
  "decryptingMessageIds (foldl purge_message st ms) = decryptingMessageIds st - msg_id ` set ms
   \<and> (\<forall>i. retryCountsRef (foldl purge_message st ms) i
            = (if i \<in> msg_id ` set ms then None else retryCountsRef st i))"
proof (induction ms arbitrary: st)
  case Nil
  show ?case by simp
next
  case (Cons m ms)
  from Cons[of "purge_message st m"] show ?case
    by (auto simp: purge_message_ids)
qed

lemma purge_chat_ids:
  assumes "msg \<in> set (chatMessages_of chatId st)"
  shows "msg_id msg \<notin> decryptingMessageIds ((purge_chat chatId st)\<lparr>error := e\<rparr>)
     \<and> retryCountsRef ((purge_chat chatId st)\<lparr>error := e\<rparr>) (msg_id msg) = None"
  using assms foldl_purge_ids[of st "chatMessages_of chatId st"]
  by (simp add: purge_chat_def Let_def)

lemma chats_purge_chat: "chats (purge_chat chatId st) = chats st"
  by (simp add: purge_chat_def Let_def chats_foldl_purge)

lemma createNewChat_failure:
  assumes "createNewChat env txt st db = (Inl e, st', db')"
  shows "(st' = st \<or> (\<exists>m. st' = st\<lparr>error := Some m\<rparr>))
     \<and> (db' = db
        \<or> (updateDoc_fault env \<noteq> None \<and> addDoc_fault env = None
            \<and> (\<exists>ct kv. encryptChatMessageAPI env (trim txt) = Inr (ct, kv))
            \<and> db' = db @ [(newDocId env, chatData_of env txt st)]))"
  using assms
  by (auto simp: createNewChat_def createNewChat_try_def addDoc_def updateDoc_def Let_def
      chatData_of_def split: if_splits sum.splits option.splits prod.splits)

lemma createNewChat_early_failure:
  assumes "createNewChat env txt st db = (r, st', db')"
    and "(\<exists>e0. encryptChatMessageAPI env (trim txt) = Inl e0) \<or> addDoc_fault env \<noteq> None"
  shows "(\<exists>e. r = Inl e) \<and> db' = db"
  using assms
  by (auto simp: createNewChat_def createNewChat_try_def addDoc_def updateDoc_def Let_def
      split: if_splits sum.splits option.splits prod.splits)

lemma createNewChat_late_failure:
  assumes "userId_arg st \<noteq> []" "trim txt \<noteq> []"
    and "encryptChatMessageAPI env (trim txt) = Inr (ct, kv)"
    and "addDoc_fault env = None" "updateDoc_fault env = Some f"
  shows "\<exists>e st'. createNewChat env txt st db
            = (Inl e, st', db @ [(newDocId env, chatData_of env txt st)])"
  using assms
  by (simp add: createNewChat_def createNewChat_try_def addDoc_def updateDoc_def Let_def
      chatData_of_def)

lemma addMessageToChat_failure:
  assumes "addMessageToChat env chatId txt sndr st db = (r, st', db')"
    and "(\<exists>e. r = Inl e) \<or> (\<exists>e0. encryptChatMessageAPI env (trim txt) = Inl e0)
         \<or> updateDoc_fault env \<noteq> None"
  shows "(\<exists>e. r = Inl e) \<and> db' = db \<and> (st' = st \<or> (\<exists>m. st' = st\<lparr>error := Some m\<rparr>))"
  using assms
  by (auto simp: addMessageToChat_def addMessageToChat_try_def updateDoc_def Let_def
      split: if_splits sum.splits option.splits prod.splits)

lemma deleteChat_failure:
  assumes "deleteChat env chatId st db = (r, st', db')"
    and "(\<exists>e. r = Inl e) \<or> deleteDoc_fault env \<noteq> None"
  shows "(\<exists>e. r = Inl e) \<and> db' = db
     \<and> (userId_arg st = [] \<longrightarrow>
          st' = st\<lparr>error := Some ''User not authenticated. Cannot delete chat.''\<rparr>)
     \<and> (userId_arg st \<noteq> [] \<longrightarrow>
          (\<exists>m. st' = (purge_chat chatId (st\<lparr>error := None\<rparr>))\<lparr>error := Some m\<rparr>))"
  using assms
  by (auto simp: deleteChat_def deleteDoc_def Let_def purge_chat_def chatMessages_of_def
      split: if_splits sum.splits option.splits prod.splits)

text \<open>
  Claim C7, as amended. \<^verbatim>\<open>createNewChat\<close>, \<^verbatim>\<open>addMessageToChat\<close> and \<^verbatim>\<open>deleteChat\<close>
  abort with an error whenever the encryption call or a store operation fails.
  A failing \<^verbatim>\<open>createNewChat\<close> or \<^verbatim>\<open>addMessageToChat\<close> changes nothing in the state of
  the hook except the error message. \<^verbatim>\<open>addMessageToChat\<close> and \<^verbatim>\<open>deleteChat\<close> leave the
  stored documents unchanged when they fail, and so does \<^verbatim>\<open>createNewChat\<close> when the
  encryption or the creation of the document fails. When \<^verbatim>\<open>createNewChat\<close> fails at
  the append of the first message, the document created just before stays in the store
  with an empty message list: nothing undoes it. When \<^verbatim>\<open>deleteChat\<close> fails at the
  store, the purge that precedes the deletion is not undone: the messages of the chat
  have left the decrypting set, their retry counts are deleted and their pending
  timeouts are cleared, although the chat still exists.
\<close>

theorem mutators_abort_on_failure:
  "(createNewChat env txt st db = (r1, st1, db1) \<longrightarrow>
      ((\<exists>e0. encryptChatMessageAPI env (trim txt) = Inl e0) \<or> addDoc_fault env \<noteq> None \<longrightarrow>
          (\<exists>e. r1 = Inl e) \<and> db1 = db)
      \<and> ((\<exists>e. r1 = Inl e) \<longrightarrow>
          chats st1 = chats st
          \<and> (st1 = st \<or> (\<exists>m. st1 = st\<lparr>error := Some m\<rparr>))
          \<and> (db1 = db \<or> (updateDoc_fault env \<noteq> None
                          \<and> db1 = db @ [(newDocId env, chatData_of env txt st)]))))
   \<and> (userId_arg st \<noteq> [] \<and> trim txt \<noteq> []
       \<and> encryptChatMessageAPI env (trim txt) = Inr (ct, kv)
       \<and> addDoc_fault env = None \<and> updateDoc_fault env = Some f \<longrightarrow>
         (\<exists>e st'. createNewChat env txt st db
                    = (Inl e, st', db @ [(newDocId env, chatData_of env txt st)])))
   \<and> (addMessageToChat env chatId txt sndr st db = (r2, st2, db2) \<longrightarrow>
        ((\<exists>e. r2 = Inl e) \<or> (\<exists>e0. encryptChatMessageAPI env (trim txt) = Inl e0)
            \<or> updateDoc_fault env \<noteq> None \<longrightarrow>
         (\<exists>e. r2 = Inl e) \<and> db2 = db \<and> chats st2 = chats st
         \<and> (st2 = st \<or> (\<exists>m. st2 = st\<lparr>error := Some m\<rparr>))))
   \<and> (deleteChat env chatId st db = (r3, st3, db3) \<longrightarrow>
        ((\<exists>e. r3 = Inl e) \<or> deleteDoc_fault env \<noteq> None \<longrightarrow>
         (\<exists>e. r3 = Inl e) \<and> db3 = db \<and> chats st3 = chats st
         \<and> (userId_arg st = [] \<longrightarrow>
              st3 = st\<lparr>error := Some ''User not authenticated. Cannot delete chat.''\<rparr>)
         \<and> (userId_arg st \<noteq> [] \<longrightarrow>
              (\<exists>m. st3 = (purge_chat chatId (st\<lparr>error := None\<rparr>))\<lparr>error := Some m\<rparr>)
              \<and> (\<forall>msg \<in> set (chatMessages_of chatId st).
                    msg_id msg \<notin> decryptingMessageIds st3
                    \<and> retryCountsRef st3 (msg_id msg) = None))))"
proof -
  have a: "(\<exists>e. r1 = Inl e) \<and> db1 = db"
    if "createNewChat env txt st db = (r1, st1, db1)"
      "(\<exists>e0. encryptChatMessageAPI env (trim txt) = Inl e0) \<or> addDoc_fault env \<noteq> None"
    using createNewChat_early_failure[OF that] .
  have b: "chats st1 = chats st
          \<and> (st1 = st \<or> (\<exists>m. st1 = st\<lparr>error := Some m\<rparr>))
          \<and> (db1 = db \<or> (updateDoc_fault env \<noteq> None
                          \<and> db1 = db @ [(newDocId env, chatData_of env txt st)]))"
    if "createNewChat env txt st db = (r1, st1, db1)" "\<exists>e. r1 = Inl e"
  proof -
    from that obtain e where "createNewChat env txt st db = (Inl e, st1, db1)" by blast
    from createNewChat_failure[OF this]
    have s: "st1 = st \<or> (\<exists>m. st1 = st\<lparr>error := Some m\<rparr>)"
      and d: "db1 = db \<or> (updateDoc_fault env \<noteq> None
                          \<and> db1 = db @ [(newDocId env, chatData_of env txt st)])"
      by blast+
    from s have "chats st1 = chats st" by auto
    with s d show ?thesis by blast
  qed
  have c: "\<exists>e st'. createNewChat env txt st db
                    = (Inl e, st', db @ [(newDocId env, chatData_of env txt st)])"
    if "userId_arg st \<noteq> [] \<and> trim txt \<noteq> []
       \<and> encryptChatMessageAPI env (trim txt) = Inr (ct, kv)
       \<and> addDoc_fault env = None \<and> updateDoc_fault env = Some f"
    using that createNewChat_late_failure[of st "txt" env ct kv f db] by blast
  have d: "(\<exists>e. r2 = Inl e) \<and> db2 = db \<and> chats st2 = chats st
         \<and> (st2 = st \<or> (\<exists>m. st2 = st\<lparr>error := Some m\<rparr>))"
    if "addMessageToChat env chatId txt sndr st db = (r2, st2, db2)"
      "(\<exists>e. r2 = Inl e) \<or> (\<exists>e0. encryptChatMessageAPI env (trim txt) = Inl e0)
            \<or> updateDoc_fault env \<noteq> None"
  proof -
    from addMessageToChat_failure[OF that]
    have r: "\<exists>e. r2 = Inl e" "db2 = db" and s: "st2 = st \<or> (\<exists>m. st2 = st\<lparr>error := Some m\<rparr>)"
      by blast+
    from s have "chats st2 = chats st" by auto
    with r s show ?thesis by blast
  qed
  have e: "(\<exists>e. r3 = Inl e) \<and> db3 = db \<and> chats st3 = chats st
         \<and> (userId_arg st = [] \<longrightarrow>
              st3 = st\<lparr>error := Some ''User not authenticated. Cannot delete chat.''\<rparr>)
         \<and> (userId_arg st \<noteq> [] \<longrightarrow>
              (\<exists>m. st3 = (purge_chat chatId (st\<lparr>error := None\<rparr>))\<lparr>error := Some m\<rparr>)
              \<and> (\<forall>msg \<in> set (chatMessages_of chatId st).
                    msg_id msg \<notin> decryptingMessageIds st3
                    \<and> retryCountsRef st3 (msg_id msg) = None))"
    if "deleteChat env chatId st db = (r3, st3, db3)"
      "(\<exists>e. r3 = Inl e) \<or> deleteDoc_fault env \<noteq> None"
  proof -
    from deleteChat_failure[OF that]
    have r: "\<exists>e. r3 = Inl e" "db3 = db"
      and u: "userId_arg st = [] \<longrightarrow>
          st3 = st\<lparr>error := Some ''User not authenticated. Cannot delete chat.''\<rparr>"
      and p: "userId_arg st \<noteq> [] \<longrightarrow>
          (\<exists>m. st3 = (purge_chat chatId (st\<lparr>error := None\<rparr>))\<lparr>error := Some m\<rparr>)"
      by blast+
    have cm: "chatMessages_of chatId (st\<lparr>error := None\<rparr>) = chatMessages_of chatId st"
      by (simp add: chatMessages_of_def)
    have ch: "chats st3 = chats st"
      using u p by (cases "userId_arg st = []") (auto simp: chats_purge_chat)
    have ids: "\<forall>msg \<in> set (chatMessages_of chatId st).
                    msg_id msg \<notin> decryptingMessageIds st3
                    \<and> retryCountsRef st3 (msg_id msg) = None"
      if "userId_arg st \<noteq> []"
    proof
      fix msg assume "msg \<in> set (chatMessages_of chatId st)"
      then have m: "msg \<in> set (chatMessages_of chatId (st\<lparr>error := None\<rparr>))" by (simp add: cm)
      from p that obtain x where "st3 = (purge_chat chatId (st\<lparr>error := None\<rparr>))\<lparr>error := Some x\<rparr>"
        by blast
      with purge_chat_ids[OF m, of "Some x"]
      show "msg_id msg \<notin> decryptingMessageIds st3 \<and> retryCountsRef st3 (msg_id msg) = None"
        by simp
    qed
    from r u p ch ids show ?thesis by (cases "userId_arg st = []") simp_all
  qed
  from a b c d e show ?thesis by blast
qed

theorem mutators_abort_on_failure_witness:
  "userId_arg (initial_state ''u1'') \<noteq> [] \<and> trim ''Hello'' \<noteq> []
   \<and> encryptChatMessageAPI failing_env (trim ''Hello'') = Inr (''CIPHERTEXT'', ''key/1'')
   \<and> addDoc_fault failing_env = None
   \<and> updateDoc_fault failing_env
       = Some \<lparr>err_name = ''FirebaseError'', err_message = ''unavailable'',
               err_code = ''unavailable''\<rparr>
   \<and> (\<exists>e st'. createNewChat failing_env ''Hello'' (initial_state ''u1'') []
                = (Inl e, st', [(''chat1'', chatData_of failing_env ''Hello'' (initial_state ''u1''))]))"
proof -
  have h: "userId_arg (initial_state ''u1'') \<noteq> [] \<and> trim ''Hello'' \<noteq> []
     \<and> encryptChatMessageAPI failing_env (trim ''Hello'') = Inr (''CIPHERTEXT'', ''key/1'')
     \<and> addDoc_fault failing_env = None
     \<and> updateDoc_fault failing_env
         = Some \<lparr>err_name = ''FirebaseError'', err_message = ''unavailable'',
                 err_code = ''unavailable''\<rparr>"
    by (simp add: initial_state_def trim_hello failing_env_def demo_env_def)
  have n: "newDocId failing_env = ''chat1''"
    by (simp add: failing_env_def demo_env_def)
  from mutators_abort_on_failure
         [of failing_env "''Hello''" "initial_state ''u1''" "[]" _ _ _ "''CIPHERTEXT''" "''key/1''"
             "\<lparr>err_name = ''FirebaseError'', err_message = ''unavailable'',
               err_code = ''unavailable''\<rparr>"] h n
  show ?thesis by simp
qed

lemma viewing_state_in_flight:
  "userId_arg viewing_state = ''u1''
   \<and> map chat_id (chats viewing_state) = [''chat1'']
   \<and> map msg_id (chatMessages_of ''chat1'' viewing_state) = [''m1'']
   \<and> decryptingMessageIds viewing_state = {''m1''}
   \<and> decryptionTimeoutsRef viewing_state ''m1'' = Some 1
   \<and> timers viewing_state = [\<lparr>timer_id = 1, action = DecryptionTimeout ''m1'', delay = 30000\<rparr>]"
  by (simp add: viewing_state_def viewed_message_def demo_message_def decryptSingleMessage_start_def
      onSnapshot_push_def subscription_snapshot_def stored_chat_def owned_desc_def
      initial_state_def quiet_env_def newChats_of_def toChat_def normalise_message_def
      chatMessages_of_def Let_def setTimeout_def MAX_DECRYPTION_RETRIES_def
      DECRYPTION_TIMEOUT_def INITIAL_CHAT_LIMIT_def enumerate_eq_zip)

text \<open>
  The claim as first stated (no partial state after a failure) fails for
  \<^verbatim>\<open>createNewChat\<close> and for \<^verbatim>\<open>deleteChat\<close>. When the store accepts the new
  document and then rejects the append, \<^verbatim>\<open>createNewChat\<close> throws and the store holds
  a chat with no messages. When the store rejects the deletion of a chat whose message
  is being decrypted, \<^verbatim>\<open>deleteChat\<close> throws and the chat is still stored, but the
  message has left the decrypting set and its timeout is cleared.
\<close>

theorem createNewChat_partial_state_counterexample:
  "createNewChat failing_env ''Hello'' (initial_state ''u1'') []
   = (Inl (Error ''Failed to create chat. unavailable''),
      (initial_state ''u1'')\<lparr>error := Some ''Failed to create chat. unavailable''\<rparr>,
      [(''chat1'', \<lparr>userId = ''u1'', title = ''Hello'', createdAt = 6, messages = []\<rparr>)])
   \<and> decryptingMessageIds viewing_state = {''m1''}
   \<and> timers viewing_state = [\<lparr>timer_id = 1, action = DecryptionTimeout ''m1'', delay = 30000\<rparr>]
   \<and> fst (deleteChat delete_failing_env ''chat1'' viewing_state stored_chat)
       = Inl (Error ''Failed to delete chat. unavailable'')
   \<and> snd (snd (deleteChat delete_failing_env ''chat1'' viewing_state stored_chat)) = stored_chat
   \<and> decryptingMessageIds
        (fst (snd (deleteChat delete_failing_env ''chat1'' viewing_state stored_chat))) = {}
   \<and> timers (fst (snd (deleteChat delete_failing_env ''chat1'' viewing_state stored_chat))) = []
   \<and> decryptionTimeoutsRef
        (fst (snd (deleteChat delete_failing_env ''chat1'' viewing_state stored_chat))) ''m1''
       = None"
proof -
  have c: "createNewChat failing_env ''Hello'' (initial_state ''u1'') []
   = (Inl (Error ''Failed to create chat. unavailable''),
      (initial_state ''u1'')\<lparr>error := Some ''Failed to create chat. unavailable''\<rparr>,
      [(''chat1'', \<lparr>userId = ''u1'', title = ''Hello'', createdAt = 6, messages = []\<rparr>)])"
    by (simp add: createNewChat_def createNewChat_try_def addDoc_def updateDoc_def Let_def
        trim_hello failing_env_def demo_env_def initial_state_def)
  have v: "viewing_state =
      (initial_state ''u1'')
        \<lparr>lastVisibleChatRef := Some ''chat1'', loadedChatsCountRef := 1,
         chats := [\<lparr>userId = ''u1'', title = ''Hello'', createdAt = 6,
                    messages = [viewed_message], chat_id = ''chat1''\<rparr>],
         loadingChats := False, error := None, hasMore := False,
         decryptingMessageIds := {''m1''},
         timers := [\<lparr>timer_id = 1, action = DecryptionTimeout ''m1'', delay = 30000\<rparr>],
         nextTimerId := 2,
         decryptionTimeoutsRef := [''m1'' \<mapsto> 1]\<rparr>"
    by (simp add: viewing_state_def viewed_message_def demo_message_def
        decryptSingleMessage_start_def onSnapshot_push_def subscription_snapshot_def
        stored_chat_def owned_desc_def initial_state_def quiet_env_def newChats_of_def toChat_def
        normalise_message_def Let_def setTimeout_def MAX_DECRYPTION_RETRIES_def
        DECRYPTION_TIMEOUT_def INITIAL_CHAT_LIMIT_def enumerate_eq_zip)
  have d: "fst (deleteChat delete_failing_env ''chat1'' viewing_state stored_chat)
       = Inl (Error ''Failed to delete chat. unavailable'')
   \<and> snd (snd (deleteChat delete_failing_env ''chat1'' viewing_state stored_chat)) = stored_chat
   \<and> decryptingMessageIds
        (fst (snd (deleteChat delete_failing_env ''chat1'' viewing_state stored_chat))) = {}
   \<and> timers (fst (snd (deleteChat delete_failing_env ''chat1'' viewing_state stored_chat))) = []
   \<and> decryptionTimeoutsRef
        (fst (snd (deleteChat delete_failing_env ''chat1'' viewing_state stored_chat))) ''m1''
       = None"
    unfolding v
    by (simp add: deleteChat_def deleteDoc_def delete_failing_env_def demo_env_def Let_def
        initial_state_def purge_message_def clearTimeout_def viewed_message_def demo_message_def)
  from c d viewing_state_in_flight show ?thesis by simp
qed

section \<open>Authenticated requests\<close>

declare makeAuthenticatedRequest.simps [simp del]

lemma fetch_count_last:
  "maxRetries \<le> rc \<Longrightarrow> length (snd (snd (makeAuthenticatedRequest env url b rc uc s))) \<le> 1"
  by (subst makeAuthenticatedRequest.simps)
     (auto split: prod.splits option.splits sum.splits if_splits)

lemma fetch_count_step:
  assumes "\<And>s'. length (snd (snd (makeAuthenticatedRequest env url b (rc + 1) uc s'))) \<le> n"
  shows "length (snd (snd (makeAuthenticatedRequest env url b rc uc s))) \<le> Suc n"
proof -
  have r: "length toks \<le> n"
    if "makeAuthenticatedRequest env url b (rc + 1) uc s' = (r, s3, toks)" for s' r s3 toks
    using assms[of s'] that by simp
  show ?thesis
    by (subst makeAuthenticatedRequest.simps)
       (auto simp del: One_nat_def split: prod.splits option.splits sum.splits dest: r)
qed

lemma fetch_count_bound:
  "length (snd (snd (makeAuthenticatedRequest env url b 0 uc s))) \<le> 3"
proof -
  have 2: "length (snd (snd (makeAuthenticatedRequest env url b (1 + 1) uc s'))) \<le> 1" for s'
    by (rule fetch_count_last) (simp add: maxRetries_def)
  have 1: "length (snd (snd (makeAuthenticatedRequest env url b (0 + 1) uc s'))) \<le> Suc 1" for s'
    using fetch_count_step[of env url b 1 uc 1 s'] 2 by simp
  from fetch_count_step[of env url b 0 uc "Suc 1" s] 1 show ?thesis by simp
qed

lemma map_get_map_delete: "map_get (map_delete m k) k = None"
  by (induction m) (auto simp: map_get_def)

lemma map_delete_idem: "map_delete (map_delete m k) k = map_delete m k"
  by (induction m) auto

lemma getCachedResponse_miss:
  "fst (getCachedResponse t k s) = None \<Longrightarrow>
     getCachedResponse t k s = (None, s\<lparr>responseCache := map_delete (responseCache s) k\<rparr>)"
  by (auto simp: getCachedResponse_def split: option.splits prod.splits if_splits)

lemma getCachedResponse_hit:
  "fst (getCachedResponse t k s) = Some r \<Longrightarrow> getCachedResponse t k s = (Some r, s)"
  by (auto simp: getCachedResponse_def split: option.splits prod.splits if_splits)

lemma cache_check_passes:
  assumes "uc \<longrightarrow> (\<exists>m. responseCache s = map_delete m k)"
  shows "(if uc then getCachedResponse t k s else (None, s)) = (None, s)"
proof (cases uc)
  case True
  with assms obtain m where m: "responseCache s = map_delete m k" by blast
  then have "s\<lparr>responseCache := map_delete m k\<rparr> = s" by simp
  with True m show ?thesis
    by (simp add: getCachedResponse_def map_get_map_delete map_delete_idem)
next
  case False
  then show ?thesis by simp
qed

lemma responseCache_getCurrentUserToken:
  "responseCache (snd (getCurrentUserToken t a s)) = responseCache s"
  by (simp add: getCurrentUserToken_def split: idp_outcome.splits)

lemma third_request:
  assumes c: "uc \<longrightarrow> (\<exists>m. responseCache s = map_delete m (url @ '':'' @ b))"
    and tc: "token (tokenCache s) = []"
    and t2: "idp env 2 = Token t2" "t2 \<noteq> []" and r2: "fetch env 2 t2 = Inr r2"
  shows "makeAuthenticatedRequest env url b (Suc (Suc 0)) uc s
     = (Inr r2,
        (if uc \<and> response_ok r2
         then cacheResponse (now env) (url @ '':'' @ b) r2
                (s\<lparr>tokenCache := \<lparr>token = t2, expiryTime = now env + 50 * 60 * 1000\<rparr>\<rparr>)
         else s\<lparr>tokenCache := \<lparr>token = t2, expiryTime = now env + 50 * 60 * 1000\<rparr>\<rparr>),
        [t2])"
proof -
  have i2: "idp env (Suc (Suc 0)) = Token t2" and f2: "fetch env (Suc (Suc 0)) t2 = Inr r2"
    using t2(1) r2 by (simp_all add: numeral_2_eq_2)
  show ?thesis
    by (subst makeAuthenticatedRequest.simps)
       (simp add: cache_check_passes[OF c] getCurrentUserToken_def tc i2 t2(2) f2 maxRetries_def)
qed

lemma second_request_answered:
  assumes c: "uc \<longrightarrow> (\<exists>m. responseCache s = map_delete m (url @ '':'' @ b))"
    and tc: "token (tokenCache s) = []"
    and t1: "idp env 1 = Token t1" "t1 \<noteq> []"
    and r1: "fetch env 1 t1 = Inr r1" "status r1 \<noteq> 401" "status r1 \<noteq> 403"
  shows "makeAuthenticatedRequest env url b (Suc 0) uc s
     = (Inr r1,
        (if uc \<and> response_ok r1
         then cacheResponse (now env) (url @ '':'' @ b) r1
                (s\<lparr>tokenCache := \<lparr>token = t1, expiryTime = now env + 50 * 60 * 1000\<rparr>\<rparr>)
         else s\<lparr>tokenCache := \<lparr>token = t1, expiryTime = now env + 50 * 60 * 1000\<rparr>\<rparr>),
        [t1])"
proof -
  have i1: "idp env (Suc 0) = Token t1" and f1: "fetch env (Suc 0) t1 = Inr r1"
    using t1(1) r1(1) by simp_all
  show ?thesis
    by (subst makeAuthenticatedRequest.simps)
       (simp add: cache_check_passes[OF c] getCurrentUserToken_def tc i1 t1(2) f1 r1(2,3))
qed

lemma second_request_refused:
  assumes c: "uc \<longrightarrow> (\<exists>m. responseCache s = map_delete m (url @ '':'' @ b))"
    and tc: "token (tokenCache s) = []"
    and t1: "idp env 1 = Token t1" "t1 \<noteq> []"
    and r1: "fetch env 1 t1 = Inr r1" "status r1 = 401 \<or> status r1 = 403"
    and t2: "idp env 2 = Token t2" "t2 \<noteq> []" and r2: "fetch env 2 t2 = Inr r2"
  shows "makeAuthenticatedRequest env url b (Suc 0) uc s
     = (Inr r2,
        (if uc \<and> response_ok r2
         then cacheResponse (now env) (url @ '':'' @ b) r2
                (s\<lparr>tokenCache := \<lparr>token = t2, expiryTime = now env + 50 * 60 * 1000\<rparr>\<rparr>)
         else s\<lparr>tokenCache := \<lparr>token = t2, expiryTime = now env + 50 * 60 * 1000\<rparr>\<rparr>),
        [t1, t2])"
proof -
  have i1: "idp env (Suc 0) = Token t1" and f1: "fetch env (Suc 0) t1 = Inr r1"
    using t1(1) r1(1) by simp_all
  let ?s = "s\<lparr>tokenCache := \<lparr>token = [], expiryTime = 0\<rparr>\<rparr>"
  have c': "uc \<longrightarrow> (\<exists>m. responseCache ?s = map_delete m (url @ '':'' @ b))"
    using c by simp
  have third: "makeAuthenticatedRequest env url b (Suc (Suc 0)) uc ?s
     = (Inr r2,
        (if uc \<and> response_ok r2
         then cacheResponse (now env) (url @ '':'' @ b) r2
                (s\<lparr>tokenCache := \<lparr>token = t2, expiryTime = now env + 50 * 60 * 1000\<rparr>\<rparr>)
         else s\<lparr>tokenCache := \<lparr>token = t2, expiryTime = now env + 50 * 60 * 1000\<rparr>\<rparr>),
        [t2])"
    using third_request[OF c' _ t2 r2] by simp
  show ?thesis
    apply (subst makeAuthenticatedRequest.simps)
    using r1(2)
    apply (simp add: cache_check_passes[OF c] getCurrentUserToken_def tc i1 t1(2) f1
        maxRetries_def third)
    done
qed

text \<open>
  The state after the cache check of the outermost call when the check finds nothing:
  \<^verbatim>\<open>getCachedResponse\<close> deletes the key it did not find.
\<close>

lemma first_request:
  assumes miss: "uc \<longrightarrow> fst (getCachedResponse (now env) (url @ '':'' @ b) s) = None"
    and t0: "getCurrentUserToken (now env) (idp env 0)
               (if uc then s\<lparr>responseCache := map_delete (responseCache s) (url @ '':'' @ b)\<rparr>
                else s) = (Inr t0, s1)" "t0 \<noteq> []"
    and r0: "fetch env 0 t0 = Inr r0" "status r0 = 401 \<or> status r0 = 403"
  shows "makeAuthenticatedRequest env url b 0 uc s
     = (case makeAuthenticatedRequest env url b (Suc 0) uc
               (s1\<lparr>tokenCache := \<lparr>token = [], expiryTime = 0\<rparr>\<rparr>) of
          (r, s3, toks) \<Rightarrow> (r, s3, t0 # toks))
     \<and> (uc \<longrightarrow> (\<exists>m. responseCache (s1\<lparr>tokenCache := \<lparr>token = [], expiryTime = 0\<rparr>\<rparr>)
                      = map_delete m (url @ '':'' @ b)))"
proof -
  let ?s0 = "if uc then s\<lparr>responseCache := map_delete (responseCache s) (url @ '':'' @ b)\<rparr> else s"
  have chk: "(if uc then getCachedResponse (now env) (url @ '':'' @ b) s else (None, s)) = (None, ?s0)"
    using miss getCachedResponse_miss[of "now env" "url @ '':'' @ b" s] by auto
  have "responseCache s1 = responseCache ?s0"
    using responseCache_getCurrentUserToken[of "now env" "idp env 0" ?s0] t0(1) by simp
  then have c: "uc \<longrightarrow> (\<exists>m. responseCache (s1\<lparr>tokenCache := \<lparr>token = [], expiryTime = 0\<rparr>\<rparr>)
                      = map_delete m (url @ '':'' @ b))"
    by auto
  have "makeAuthenticatedRequest env url b 0 uc s
     = (case makeAuthenticatedRequest env url b (Suc 0) uc
               (s1\<lparr>tokenCache := \<lparr>token = [], expiryTime = 0\<rparr>\<rparr>) of
          (r, s3, toks) \<Rightarrow> (r, s3, t0 # toks))"
  proof (cases uc)
    case True
    with chk have k: "getCachedResponse (now env) (url @ '':'' @ b) s
        = (None, s\<lparr>responseCache := map_delete (responseCache s) (url @ '':'' @ b)\<rparr>)"
      by simp
    from True t0(1) have g: "getCurrentUserToken (now env) (idp env 0)
        (s\<lparr>responseCache := map_delete (responseCache s) (url @ '':'' @ b)\<rparr>) = (Inr t0, s1)"
      by simp
    show ?thesis
      apply (subst makeAuthenticatedRequest.simps)
      using r0(2) k g apply (simp add: True t0(2) r0(1) maxRetries_def)
      done
  next
    case False
    with t0(1) have g: "getCurrentUserToken (now env) (idp env 0) s = (Inr t0, s1)"
      by simp
    show ?thesis
      apply (subst makeAuthenticatedRequest.simps)
      using r0(2) apply (simp add: False g t0(2) r0(1) maxRetries_def)
      done
  qed
  with c show ?thesis by blast
qed

lemma one_retry_then_answer:
  assumes miss: "uc \<longrightarrow> fst (getCachedResponse (now env) (url @ '':'' @ b) s) = None"
    and t0: "getCurrentUserToken (now env) (idp env 0)
               (if uc then s\<lparr>responseCache := map_delete (responseCache s) (url @ '':'' @ b)\<rparr>
                else s) = (Inr t0, s1)" "t0 \<noteq> []"
    and t1: "idp env 1 = Token t1" "t1 \<noteq> []"
    and r0: "fetch env 0 t0 = Inr r0" "status r0 = 401 \<or> status r0 = 403"
    and r1: "fetch env 1 t1 = Inr r1" "status r1 \<noteq> 401" "status r1 \<noteq> 403"
  shows "makeAuthenticatedRequest env url b 0 uc s
     = (Inr r1,
        (if uc \<and> response_ok r1
         then cacheResponse (now env) (url @ '':'' @ b) r1
                (s1\<lparr>tokenCache := \<lparr>token = t1, expiryTime = now env + 50 * 60 * 1000\<rparr>\<rparr>)
         else s1\<lparr>tokenCache := \<lparr>token = t1, expiryTime = now env + 50 * 60 * 1000\<rparr>\<rparr>),
        [t0, t1])"
proof -
  from first_request[OF miss t0 r0]
  have f: "makeAuthenticatedRequest env url b 0 uc s
     = (case makeAuthenticatedRequest env url b (Suc 0) uc
               (s1\<lparr>tokenCache := \<lparr>token = [], expiryTime = 0\<rparr>\<rparr>) of
          (r, s3, toks) \<Rightarrow> (r, s3, t0 # toks))"
    and c: "uc \<longrightarrow> (\<exists>m. responseCache (s1\<lparr>tokenCache := \<lparr>token = [], expiryTime = 0\<rparr>\<rparr>)
                      = map_delete m (url @ '':'' @ b))"
    by blast+
  from second_request_answered[OF c _ t1 r1] f show ?thesis by simp
qed

lemma three_requests_on_auth_failures:
  assumes miss: "uc \<longrightarrow> fst (getCachedResponse (now env) (url @ '':'' @ b) s) = None"
    and t0: "getCurrentUserToken (now env) (idp env 0)
               (if uc then s\<lparr>responseCache := map_delete (responseCache s) (url @ '':'' @ b)\<rparr>
                else s) = (Inr t0, s1)" "t0 \<noteq> []"
    and t1: "idp env 1 = Token t1" "t1 \<noteq> []"
    and t2: "idp env 2 = Token t2" "t2 \<noteq> []"
    and r0: "fetch env 0 t0 = Inr r0" "status r0 = 401 \<or> status r0 = 403"
    and r1: "fetch env 1 t1 = Inr r1" "status r1 = 401 \<or> status r1 = 403"
    and r2: "fetch env 2 t2 = Inr r2"
  shows "makeAuthenticatedRequest env url b 0 uc s
     = (Inr r2,
        (if uc \<and> response_ok r2
         then cacheResponse (now env) (url @ '':'' @ b) r2
                (s1\<lparr>tokenCache := \<lparr>token = t2, expiryTime = now env + 50 * 60 * 1000\<rparr>\<rparr>)
         else s1\<lparr>tokenCache := \<lparr>token = t2, expiryTime = now env + 50 * 60 * 1000\<rparr>\<rparr>),
        [t0, t1, t2])"
proof -
  from first_request[OF miss t0 r0]
  have f: "makeAuthenticatedRequest env url b 0 uc s
     = (case makeAuthenticatedRequest env url b (Suc 0) uc
               (s1\<lparr>tokenCache := \<lparr>token = [], expiryTime = 0\<rparr>\<rparr>) of
          (r, s3, toks) \<Rightarrow> (r, s3, t0 # toks))"
    and c: "uc \<longrightarrow> (\<exists>m. responseCache (s1\<lparr>tokenCache := \<lparr>token = [], expiryTime = 0\<rparr>\<rparr>)
                      = map_delete m (url @ '':'' @ b))"
    by blast+
  from second_request_refused[OF c _ t1 r1 t2 r2] f show ?thesis by simp
qed

lemma no_credential_no_retry:
  assumes miss: "uc \<longrightarrow> fst (getCachedResponse (now env) (url @ '':'' @ b) s) = None"
    and "token (tokenCache s) = []" "idp env 0 = NoUser"
  shows "makeAuthenticatedRequest env url b 0 uc s
     = (Inl (Error ''Authentication required. Please sign in.''),
        (if uc then s\<lparr>responseCache := map_delete (responseCache s) (url @ '':'' @ b)\<rparr> else s)
          \<lparr>tokenCache := \<lparr>token = [], expiryTime = 0\<rparr>\<rparr>, [])"
proof -
  let ?s0 = "if uc then s\<lparr>responseCache := map_delete (responseCache s) (url @ '':'' @ b)\<rparr> else s"
  have chk: "(if uc then getCachedResponse (now env) (url @ '':'' @ b) s else (None, s)) = (None, ?s0)"
    using miss getCachedResponse_miss[of "now env" "url @ '':'' @ b" s] by auto
  show ?thesis
  proof (cases uc)
    case True
    with chk have k: "getCachedResponse (now env) (url @ '':'' @ b) s
        = (None, s\<lparr>responseCache := map_delete (responseCache s) (url @ '':'' @ b)\<rparr>)"
      by simp
    show ?thesis
      apply (subst makeAuthenticatedRequest.simps)
      using k apply (simp add: True getCurrentUserToken_def assms(2,3) request_catch_def Error_def)
      done
  next
    case False
    show ?thesis
      by (subst makeAuthenticatedRequest.simps)
         (simp add: False getCurrentUserToken_def assms(2,3) request_catch_def Error_def)
  qed
qed

lemma cached_response_returned:
  assumes "fst (getCachedResponse (now env) (url @ '':'' @ b) s) = Some r"
  shows "makeAuthenticatedRequest env url b 0 True s = (Inr r, s, [])"
  using getCachedResponse_hit[OF assms]
  by (subst makeAuthenticatedRequest.simps) simp

text \<open>
  Claim C8, as amended. A call of \<^verbatim>\<open>makeAuthenticatedRequest\<close> issues at most three
  requests, with or without response caching. When it is not answered from the
  response cache: after a response with status 401 or 403 the cached token is dropped
  and the request is repeated with a token freshly obtained from the identity
  provider, up to two times: a first authentication failure followed by another answer
  costs one retry; a second consecutive authentication failure is retried once more;
  the third response is returned to the caller whatever its status. When no credential
  is available (no user is signed in), the call is rejected at once and nothing is
  sent or retried. A call with response caching that finds a fresh cached response
  returns it and sends nothing.
\<close>

theorem auth_failure_retried_up_to_twice:
  "length (snd (snd (makeAuthenticatedRequest env url b 0 uc s))) \<le> 3
   \<and> ((uc \<longrightarrow> fst (getCachedResponse (now env) (url @ '':'' @ b) s) = None)
        \<and> getCurrentUserToken (now env) (idp env 0)
              (if uc then s\<lparr>responseCache := map_delete (responseCache s) (url @ '':'' @ b)\<rparr>
               else s) = (Inr t0, s1)
        \<and> t0 \<noteq> []
        \<and> idp env 1 = Token t1 \<and> t1 \<noteq> []
        \<and> fetch env 0 t0 = Inr r0 \<and> (status r0 = 401 \<or> status r0 = 403)
        \<and> fetch env 1 t1 = Inr r1 \<longrightarrow>
        (status r1 \<noteq> 401 \<and> status r1 \<noteq> 403 \<longrightarrow>
           makeAuthenticatedRequest env url b 0 uc s
             = (Inr r1,
                (if uc \<and> response_ok r1
                 then cacheResponse (now env) (url @ '':'' @ b) r1
                        (s1\<lparr>tokenCache := \<lparr>token = t1, expiryTime = now env + 50 * 60 * 1000\<rparr>\<rparr>)
                 else s1\<lparr>tokenCache := \<lparr>token = t1, expiryTime = now env + 50 * 60 * 1000\<rparr>\<rparr>),
                [t0, t1]))
        \<and> ((status r1 = 401 \<or> status r1 = 403)
             \<and> idp env 2 = Token t2 \<and> t2 \<noteq> [] \<and> fetch env 2 t2 = Inr r2 \<longrightarrow>
           makeAuthenticatedRequest env url b 0 uc s
             = (Inr r2,
                (if uc \<and> response_ok r2
                 then cacheResponse (now env) (url @ '':'' @ b) r2
                        (s1\<lparr>tokenCache := \<lparr>token = t2, expiryTime = now env + 50 * 60 * 1000\<rparr>\<rparr>)
                 else s1\<lparr>tokenCache := \<lparr>token = t2, expiryTime = now env + 50 * 60 * 1000\<rparr>\<rparr>),
                [t0, t1, t2])))
   \<and> ((uc \<longrightarrow> fst (getCachedResponse (now env) (url @ '':'' @ b) s) = None)
        \<and> token (tokenCache s) = [] \<and> idp env 0 = NoUser \<longrightarrow>
        makeAuthenticatedRequest env url b 0 uc s
          = (Inl (Error ''Authentication required. Please sign in.''),
             (if uc then s\<lparr>responseCache := map_delete (responseCache s) (url @ '':'' @ b)\<rparr>
              else s)\<lparr>tokenCache := \<lparr>token = [], expiryTime = 0\<rparr>\<rparr>,
             []))
   \<and> (fst (getCachedResponse (now env) (url @ '':'' @ b) s) = Some r \<longrightarrow>
        makeAuthenticatedRequest env url b 0 True s = (Inr r, s, []))"
  using fetch_count_bound[of env url b uc s]
    one_retry_then_answer[of uc env url b s t0 s1 t1 r0 r1]
    three_requests_on_auth_failures[of uc env url b s t0 s1 t1 t2 r0 r1 r2]
    no_credential_no_retry[of uc env url b s]
    cached_response_returned[of env url b s r]
  by blast

lemma always_401_answers:
  "fst (getCachedResponse (now always_401) (''u'' @ '':'' @ ''b'') fresh_api_state) = None
   \<and> getCurrentUserToken (now always_401) (idp always_401 0)
        (fresh_api_state\<lparr>responseCache := map_delete (responseCache fresh_api_state)
                                             (''u'' @ '':'' @ ''b'')\<rparr>)
      = (Inr ''t0'', fresh_api_state\<lparr>tokenCache := \<lparr>token = ''t0'', expiryTime = 3000000\<rparr>\<rparr>)
   \<and> getCurrentUserToken (now always_401) (idp always_401 0) fresh_api_state
      = (Inr ''t0'', fresh_api_state\<lparr>tokenCache := \<lparr>token = ''t0'', expiryTime = 3000000\<rparr>\<rparr>)
   \<and> idp always_401 1 = Token ''t1'' \<and> idp always_401 2 = Token ''t2''
   \<and> fetch always_401 0 ''t0'' = Inr \<lparr>status = 401, body = []\<rparr>
   \<and> fetch always_401 1 ''t1'' = Inr \<lparr>status = 401, body = []\<rparr>
   \<and> fetch always_401 2 ''t2'' = Inr \<lparr>status = 401, body = []\<rparr>
   \<and> \<not> response_ok \<lparr>status = 401, body = []\<rparr>"
  by (simp add: getCachedResponse_def getCurrentUserToken_def always_401_def fresh_api_state_def
      map_get_def response_ok_def)

lemma always_401_clock: "now always_401 = 0"
  by (simp add: always_401_def)

theorem auth_failure_retried_up_to_twice_witness:
  "fst (getCachedResponse (now always_401) (''u'' @ '':'' @ ''b'') fresh_api_state) = None
   \<and> idp always_401 1 = Token ''t1'' \<and> idp always_401 2 = Token ''t2''
   \<and> fetch always_401 0 ''t0'' = Inr \<lparr>status = 401, body = []\<rparr>
   \<and> fetch always_401 1 ''t1'' = Inr \<lparr>status = 401, body = []\<rparr>
   \<and> fetch always_401 2 ''t2'' = Inr \<lparr>status = 401, body = []\<rparr>
   \<and> makeAuthenticatedRequest always_401 ''u'' ''b'' 0 True fresh_api_state
       = (Inr \<lparr>status = 401, body = []\<rparr>,
          fresh_api_state\<lparr>tokenCache := \<lparr>token = ''t2'', expiryTime = 3000000\<rparr>\<rparr>,
          [''t0'', ''t1'', ''t2''])"
proof -
  note a = always_401_answers
  let ?r = "\<lparr>status = 401, body = []\<rparr>"
  let ?s1 = "fresh_api_state\<lparr>tokenCache := \<lparr>token = ''t0'', expiryTime = 3000000\<rparr>\<rparr>"
  have h: "(True \<longrightarrow> fst (getCachedResponse (now always_401) (''u'' @ '':'' @ ''b'')
                           fresh_api_state) = None)
        \<and> getCurrentUserToken (now always_401) (idp always_401 0)
              (if True then fresh_api_state\<lparr>responseCache :=
                               map_delete (responseCache fresh_api_state) (''u'' @ '':'' @ ''b'')\<rparr>
               else fresh_api_state) = (Inr ''t0'', ?s1)
        \<and> ''t0'' \<noteq> []
        \<and> idp always_401 1 = Token ''t1'' \<and> ''t1'' \<noteq> []
        \<and> fetch always_401 0 ''t0'' = Inr ?r \<and> (status ?r = 401 \<or> status ?r = 403)
        \<and> fetch always_401 1 ''t1'' = Inr ?r"
    using a by simp
  have h2: "(status ?r = 401 \<or> status ?r = 403)
             \<and> idp always_401 2 = Token ''t2'' \<and> ''t2'' \<noteq> [] \<and> fetch always_401 2 ''t2'' = Inr ?r"
    using a by simp
  from auth_failure_retried_up_to_twice
         [of always_401 "''u''" "''b''" True fresh_api_state "''t0''" ?s1
             "''t1''" ?r ?r "''t2''" ?r] h h2
  have "makeAuthenticatedRequest always_401 ''u'' ''b'' 0 True fresh_api_state
             = (Inr ?r,
                (if True \<and> response_ok ?r
                 then cacheResponse (now always_401) (''u'' @ '':'' @ ''b'') ?r
                        (?s1\<lparr>tokenCache := \<lparr>token = ''t2'',
                                              expiryTime = now always_401 + 50 * 60 * 1000\<rparr>\<rparr>)
                 else ?s1\<lparr>tokenCache := \<lparr>token = ''t2'',
                                             expiryTime = now always_401 + 50 * 60 * 1000\<rparr>\<rparr>),
                [''t0'', ''t1'', ''t2''])"
    by blast
  with a show ?thesis by (simp add: always_401_clock)
qed

text \<open>
  The claim as first stated (exactly one retry, a second consecutive authentication
  failure is surfaced) fails: when the service answers 401 every time, three requests
  are sent, the second failure being retried with a third token. This is so without
  response caching (as for encrypt calls) and with it (as for decrypt calls).
\<close>

theorem auth_second_failure_retried_counterexample:
  "makeAuthenticatedRequest always_401 ''u'' ''b'' 0 False fresh_api_state
   = (Inr \<lparr>status = 401, body = []\<rparr>,
      \<lparr>tokenCache = \<lparr>token = ''t2'', expiryTime = 3000000\<rparr>, responseCache = []\<rparr>,
      [''t0'', ''t1'', ''t2''])
   \<and> makeAuthenticatedRequest always_401 ''u'' ''b'' 0 True fresh_api_state
   = (Inr \<lparr>status = 401, body = []\<rparr>,
      \<lparr>tokenCache = \<lparr>token = ''t2'', expiryTime = 3000000\<rparr>, responseCache = []\<rparr>,
      [''t0'', ''t1'', ''t2''])"
proof -
  note a = always_401_answers
  let ?r = "\<lparr>status = 401, body = []\<rparr>"
  let ?s1 = "fresh_api_state\<lparr>tokenCache := \<lparr>token = ''t0'', expiryTime = 3000000\<rparr>\<rparr>"
  have m: "uc \<longrightarrow> fst (getCachedResponse (now always_401) (''u'' @ '':'' @ ''b'')
                           fresh_api_state) = None" for uc
    using a by simp
  have g: "getCurrentUserToken (now always_401) (idp always_401 0)
              (if uc then fresh_api_state\<lparr>responseCache :=
                               map_delete (responseCache fresh_api_state) (''u'' @ '':'' @ ''b'')\<rparr>
               else fresh_api_state) = (Inr ''t0'', ?s1)" for uc
    using a by simp
  have t: "''t0'' \<noteq> []" "idp always_401 1 = Token ''t1''" "''t1'' \<noteq> []"
      "idp always_401 2 = Token ''t2''" "''t2'' \<noteq> []"
    and f: "fetch always_401 0 ''t0'' = Inr ?r" "status ?r = 401 \<or> status ?r = 403"
      "fetch always_401 1 ''t1'' = Inr ?r" "fetch always_401 2 ''t2'' = Inr ?r"
    using a by simp_all
  have "makeAuthenticatedRequest always_401 ''u'' ''b'' 0 uc fresh_api_state
     = (Inr ?r,
        (if uc \<and> response_ok ?r
         then cacheResponse (now always_401) (''u'' @ '':'' @ ''b'') ?r
                (?s1\<lparr>tokenCache := \<lparr>token = ''t2'', expiryTime = now always_401 + 50 * 60 * 1000\<rparr>\<rparr>)
         else ?s1\<lparr>tokenCache := \<lparr>token = ''t2'', expiryTime = now always_401 + 50 * 60 * 1000\<rparr>\<rparr>),
        [''t0'', ''t1'', ''t2''])" for uc
    by (rule three_requests_on_auth_failures
              [OF m g t(1) t(2) t(3) t(4) t(5) f(1) f(2) f(3) f(2) f(4)])
  from this[of False] this[of True] a show ?thesis
    by (simp add: fresh_api_state_def always_401_clock)
qed

section \<open>Pagination\<close>

lemma getDocs_limit: "getDocs fault db q = Inr docs \<Longrightarrow> length docs \<le> q_limit q"
  by (auto simp: getDocs_def split: option.splits)

lemma loadMoreChats_guard_fails:
  "userId_arg st = [] \<or> loadingMore st \<or> \<not> hasMore st \<or> lastVisibleChatRef st = None \<Longrightarrow>
   loadMoreChats env db st = (st, [])"
  by (auto simp: loadMoreChats_def split: option.splits)

lemma loadMoreChats_query:
  assumes "userId_arg st \<noteq> []" "\<not> loadingMore st" "hasMore st" "lastVisibleChatRef st = Some cursor"
  shows "snd (loadMoreChats env db st)
     = [\<lparr>q_userId = userId_arg st, q_startAfter = cursor, q_limit = CHAT_PAGE_SIZE\<rparr>]"
  using assms by (simp add: loadMoreChats_def Let_def split: sum.splits)

lemma loadMoreChats_settles:
  assumes "userId_arg st \<noteq> []" "\<not> loadingMore st" "hasMore st" "lastVisibleChatRef st = Some cursor"
  shows "\<not> loadingMore (fst (loadMoreChats env db st))
     \<and> userId_arg (fst (loadMoreChats env db st)) = userId_arg st"
  using assms by (simp add: loadMoreChats_def Let_def split: sum.splits)

lemma chat_id_toChat: "chat_id (toChat t u d) = fst d"
  by (simp add: toChat_def)

lemma chat_ids_enumerate:
  "map chat_id (map (\<lambda>(i, d). toChat t (u i) d) (enumerate n docs)) = map fst docs"
  by (induction docs arbitrary: n) (simp_all add: chat_id_toChat)

lemma chat_ids_newChats: "map chat_id (newChats_of env docs) = map fst docs"
  unfolding newChats_of_def by (rule chat_ids_enumerate)

lemma length_newChats: "length (newChats_of env docs) = length docs"
  by (simp add: newChats_of_def)

lemma loadMoreChats_page:
  assumes "userId_arg st \<noteq> []" "\<not> loadingMore st" "hasMore st" "lastVisibleChatRef st = Some cursor"
    and "getDocs (getDocs_fault env) db
           \<lparr>q_userId = userId_arg st, q_startAfter = cursor, q_limit = CHAT_PAGE_SIZE\<rparr> = Inr docs"
  shows "chats (fst (loadMoreChats env db st)) = chats st @ newChats_of env docs
     \<and> length docs \<le> CHAT_PAGE_SIZE
     \<and> (hasMore (fst (loadMoreChats env db st)) \<longleftrightarrow> length docs = CHAT_PAGE_SIZE)
     \<and> lastVisibleChatRef (fst (loadMoreChats env db st))
         = Some (if docs = [] then cursor else fst (last docs))
     \<and> loadedChatsCountRef (fst (loadMoreChats env db st)) = loadedChatsCountRef st + length docs"
proof -
  from getDocs_limit[OF assms(5)] have "length docs \<le> CHAT_PAGE_SIZE" by simp
  moreover have "newChats_of env [] = []" by (simp add: newChats_of_def enumerate_eq_zip)
  ultimately show ?thesis
    using assms by (auto simp: loadMoreChats_def Let_def CHAT_PAGE_SIZE_def length_newChats)
qed

lemma loadMoreChats_next_query:
  assumes g: "userId_arg st \<noteq> []" "\<not> loadingMore st" "hasMore st" "lastVisibleChatRef st = Some cursor"
    and d: "getDocs (getDocs_fault env) db
           \<lparr>q_userId = userId_arg st, q_startAfter = cursor, q_limit = CHAT_PAGE_SIZE\<rparr> = Inr docs"
    and full: "length docs = CHAT_PAGE_SIZE"
  shows "snd (loadMoreChats env' db' (fst (loadMoreChats env db st)))
     = [\<lparr>q_userId = userId_arg st, q_startAfter = fst (last docs), q_limit = CHAT_PAGE_SIZE\<rparr>]"
proof -
  let ?st' = "fst (loadMoreChats env db st)"
  from full have ne: "docs \<noteq> []" by (auto simp: CHAT_PAGE_SIZE_def)
  from loadMoreChats_settles[OF g, of env db] have a: "\<not> loadingMore ?st'" "userId_arg ?st' = userId_arg st"
    by simp_all
  from loadMoreChats_page[OF g d] full ne have b: "hasMore ?st'"
      "lastVisibleChatRef ?st' = Some (fst (last docs))"
    by simp_all
  from loadMoreChats_query[of ?st' "fst (last docs)" env' db'] a b g(1) show ?thesis by simp
qed

lemma loadMoreChats_error:
  assumes "userId_arg st \<noteq> []" "\<not> loadingMore st" "hasMore st" "lastVisibleChatRef st = Some cursor"
    and "getDocs (getDocs_fault env) db
           \<lparr>q_userId = userId_arg st, q_startAfter = cursor, q_limit = CHAT_PAGE_SIZE\<rparr> = Inl e"
  shows "chats (fst (loadMoreChats env db st)) = chats st
     \<and> hasMore (fst (loadMoreChats env db st))
     \<and> lastVisibleChatRef (fst (loadMoreChats env db st)) = Some cursor
     \<and> error (fst (loadMoreChats env db st)) = Some ''Failed to load more chats''"
  using assms by (simp add: loadMoreChats_def Let_def)

lemma dropWhile_to_nth:
  "distinct (map fst ds) \<Longrightarrow> k < length ds \<Longrightarrow>
     dropWhile (\<lambda>p. fst p \<noteq> fst (ds ! k)) ds = drop k ds"
proof (induction ds arbitrary: k)
  case Nil
  then show ?case by simp
next
  case (Cons d ds)
  show ?case
  proof (cases k)
    case 0
    then show ?thesis by simp
  next
    case (Suc j)
    with Cons.prems have "j < length ds" "fst (ds ! j) \<in> fst ` set ds" "fst d \<notin> fst ` set ds"
      by auto
    then have "fst d \<noteq> fst (ds ! j)" by auto
    with Cons Suc show ?thesis by simp
  qed
qed

lemma docs_after_nth:
  assumes "distinct (map fst ds)" "k < length ds"
  shows "docs_after (fst (ds ! k)) ds = drop (Suc k) ds"
proof -
  from assms(2) have "drop k ds = ds ! k # drop (Suc k) ds"
    by (simp add: Cons_nth_drop_Suc)
  with dropWhile_to_nth[OF assms] show ?thesis
    by (simp add: docs_after_def)
qed

lemma distinct_owned_desc:
  assumes "distinct (map fst db)"
  shows "distinct (map fst (owned_desc db uid))"
proof -
  have "distinct (map fst (filter (\<lambda>p. userId (snd p) = uid) db))"
    using assms by (rule distinct_map_filter)
  then have "distinct (map fst (sort_key (\<lambda>p. createdAt (snd p))
                                  (filter (\<lambda>p. userId (snd p) = uid) db)))"
    by (metis distinct_map distinct_sort set_sort)
  then show ?thesis
    by (simp add: owned_desc_def rev_map[symmetric])
qed

lemma loadMoreChats_position:
  assumes g: "userId_arg st \<noteq> []" "\<not> loadingMore st" "hasMore st" "lastVisibleChatRef st = Some cursor"
    and ok: "getDocs_fault env = None" "distinct (map fst db)"
    and k: "k < length (owned_desc db (userId_arg st))"
      "cursor = fst (owned_desc db (userId_arg st) ! k)"
  shows "map chat_id (chats (fst (loadMoreChats env db st)))
           = map chat_id (chats st)
             @ map fst (take CHAT_PAGE_SIZE (drop (Suc k) (owned_desc db (userId_arg st))))
     \<and> (hasMore (fst (loadMoreChats env db st))
          \<longleftrightarrow> k + CHAT_PAGE_SIZE < length (owned_desc db (userId_arg st)))
     \<and> (k + CHAT_PAGE_SIZE < length (owned_desc db (userId_arg st)) \<longrightarrow>
          lastVisibleChatRef (fst (loadMoreChats env db st))
            = Some (fst (owned_desc db (userId_arg st) ! (k + CHAT_PAGE_SIZE))))"
proof -
  let ?ds = "owned_desc db (userId_arg st)"
  let ?page = "take CHAT_PAGE_SIZE (drop (Suc k) ?ds)"
  have after: "docs_after cursor ?ds = drop (Suc k) ?ds"
    using docs_after_nth[OF distinct_owned_desc[OF ok(2)] k(1)] k(2) by simp
  have d: "getDocs (getDocs_fault env) db
           \<lparr>q_userId = userId_arg st, q_startAfter = cursor, q_limit = CHAT_PAGE_SIZE\<rparr> = Inr ?page"
    by (simp add: getDocs_def ok(1) after)
  note p = loadMoreChats_page[OF g d]
  have len: "length ?page = CHAT_PAGE_SIZE \<longleftrightarrow> k + CHAT_PAGE_SIZE < length ?ds"
    by (auto simp: CHAT_PAGE_SIZE_def)
  have ids: "map chat_id (chats (fst (loadMoreChats env db st)))
           = map chat_id (chats st) @ map fst ?page"
    using p by (simp add: chat_ids_newChats)
  have cur: "lastVisibleChatRef (fst (loadMoreChats env db st)) = Some (fst (?ds ! (k + CHAT_PAGE_SIZE)))"
    if f: "k + CHAT_PAGE_SIZE < length ?ds"
  proof -
    from f len have l: "length ?page = CHAT_PAGE_SIZE" by simp
    then have ne: "?page \<noteq> []" by (auto simp: CHAT_PAGE_SIZE_def)
    have "last ?page = ?page ! (CHAT_PAGE_SIZE - 1)"
      using ne l by (simp add: last_conv_nth)
    also have "\<dots> = ?ds ! (k + CHAT_PAGE_SIZE)"
      using f by (simp add: CHAT_PAGE_SIZE_def add.commute)
    finally show ?thesis using p ne by simp
  qed
  from ids p len cur show ?thesis by simp
qed

lemma onSnapshot_push_state:
  assumes "mountedRef st0"
  shows "chats (onSnapshot_push env docs0 st0) = newChats_of env docs0
     \<and> (hasMore (onSnapshot_push env docs0 st0) \<longleftrightarrow> length docs0 = INITIAL_CHAT_LIMIT)
     \<and> (docs0 \<noteq> [] \<longrightarrow>
          lastVisibleChatRef (onSnapshot_push env docs0 st0) = Some (fst (last docs0)))"
  using assms by (simp add: onSnapshot_push_def)

text \<open>
  Claim C9. A call of \<^verbatim>\<open>loadMoreChats\<close> that passes its guard (a user, no load in
  progress, \<^verbatim>\<open>hasMore\<close> set and a cursor) sends exactly one query, for the chats of
  the user after the last-seen document, limited to the page size 10, and ends with
  \<^verbatim>\<open>loadingMore\<close> reset. When the query answers, the chats of the page are appended
  to the existing list, which is never replaced; \<^verbatim>\<open>hasMore\<close> becomes false exactly
  when the page holds fewer than 10 documents, the empty page included; the last
  document of a non-empty page becomes the last-seen document, so that after a full
  page the next call asks for the documents after it. When the query fails, the list,
  the last-seen document and \<^verbatim>\<open>hasMore\<close> are unchanged. On a store whose documents
  have distinct identifiers, a call whose cursor is the document at position \<open>k\<close> of
  the user's chats loads the next 10 documents at most, keeps \<^verbatim>\<open>hasMore\<close> exactly when
  more than 10 documents follow position \<open>k\<close>, and then has its cursor at position
  \<open>k + 10\<close>. Once \<^verbatim>\<open>hasMore\<close> is false, every further call does nothing and sends
  no query. The first last-seen document is the last one of the snapshot that the
  subscription delivers.
\<close>

theorem loadMoreChats_pagination:
  "(userId_arg st \<noteq> [] \<and> \<not> loadingMore st \<and> hasMore st \<and> lastVisibleChatRef st = Some cursor \<longrightarrow>
      snd (loadMoreChats env db st)
        = [\<lparr>q_userId = userId_arg st, q_startAfter = cursor, q_limit = 10\<rparr>]
      \<and> \<not> loadingMore (fst (loadMoreChats env db st))
      \<and> userId_arg (fst (loadMoreChats env db st)) = userId_arg st
      \<and> (\<forall>docs. getDocs (getDocs_fault env) db
                    \<lparr>q_userId = userId_arg st, q_startAfter = cursor, q_limit = 10\<rparr> = Inr docs \<longrightarrow>
             chats (fst (loadMoreChats env db st)) = chats st @ newChats_of env docs
             \<and> length (newChats_of env docs) = length docs
             \<and> map chat_id (newChats_of env docs) = map fst docs
             \<and> length docs \<le> 10
             \<and> (\<not> hasMore (fst (loadMoreChats env db st)) \<longleftrightarrow> length docs < 10)
             \<and> lastVisibleChatRef (fst (loadMoreChats env db st))
                 = Some (if docs = [] then cursor else fst (last docs))
             \<and> loadedChatsCountRef (fst (loadMoreChats env db st))
                 = loadedChatsCountRef st + length docs
             \<and> (length docs = 10 \<longrightarrow>
                  (\<forall>env' db'. snd (loadMoreChats env' db' (fst (loadMoreChats env db st)))
                     = [\<lparr>q_userId = userId_arg st, q_startAfter = fst (last docs),
                         q_limit = 10\<rparr>])))
      \<and> (\<forall>e. getDocs (getDocs_fault env) db
                    \<lparr>q_userId = userId_arg st, q_startAfter = cursor, q_limit = 10\<rparr> = Inl e \<longrightarrow>
             chats (fst (loadMoreChats env db st)) = chats st
             \<and> hasMore (fst (loadMoreChats env db st))
             \<and> lastVisibleChatRef (fst (loadMoreChats env db st)) = Some cursor)
      \<and> (\<forall>k. getDocs_fault env = None \<and> distinct (map fst db)
               \<and> k < length (owned_desc db (userId_arg st))
               \<and> cursor = fst (owned_desc db (userId_arg st) ! k) \<longrightarrow>
             map chat_id (chats (fst (loadMoreChats env db st)))
               = map chat_id (chats st)
                 @ map fst (take 10 (drop (Suc k) (owned_desc db (userId_arg st))))
             \<and> (hasMore (fst (loadMoreChats env db st))
                  \<longleftrightarrow> k + 10 < length (owned_desc db (userId_arg st)))
             \<and> (k + 10 < length (owned_desc db (userId_arg st)) \<longrightarrow>
                  lastVisibleChatRef (fst (loadMoreChats env db st))
                    = Some (fst (owned_desc db (userId_arg st) ! (k + 10))))))
   \<and> (\<not> hasMore st \<longrightarrow> loadMoreChats env db st = (st, []))
   \<and> (mountedRef st0 \<longrightarrow>
        chats (onSnapshot_push env docs0 st0) = newChats_of env docs0
        \<and> (hasMore (onSnapshot_push env docs0 st0) \<longleftrightarrow> length docs0 = 20)
        \<and> (docs0 \<noteq> [] \<longrightarrow>
             lastVisibleChatRef (onSnapshot_push env docs0 st0) = Some (fst (last docs0))))"
proof -
  let ?st' = "fst (loadMoreChats env db st)"
  let ?q = "\<lparr>q_userId = userId_arg st, q_startAfter = cursor, q_limit = 10\<rparr>"
  have noop: "loadMoreChats env db st = (st, [])" if "\<not> hasMore st"
    using that by (simp add: loadMoreChats_guard_fails)
  have snap: "chats (onSnapshot_push env docs0 st0) = newChats_of env docs0
        \<and> (hasMore (onSnapshot_push env docs0 st0) \<longleftrightarrow> length docs0 = 20)
        \<and> (docs0 \<noteq> [] \<longrightarrow>
             lastVisibleChatRef (onSnapshot_push env docs0 st0) = Some (fst (last docs0)))"
    if "mountedRef st0"
    using onSnapshot_push_state[OF that, of env docs0] by (simp add: INITIAL_CHAT_LIMIT_def)
  have call: "snd (loadMoreChats env db st) = [?q] \<and> \<not> loadingMore ?st'
      \<and> userId_arg ?st' = userId_arg st"
    if g: "userId_arg st \<noteq> [] \<and> \<not> loadingMore st \<and> hasMore st \<and> lastVisibleChatRef st = Some cursor"
    using that loadMoreChats_query[of st cursor env db] loadMoreChats_settles[of st cursor env db]
    by (simp add: CHAT_PAGE_SIZE_def)
  have page: "chats ?st' = chats st @ newChats_of env docs
             \<and> length (newChats_of env docs) = length docs
             \<and> map chat_id (newChats_of env docs) = map fst docs
             \<and> length docs \<le> 10
             \<and> (\<not> hasMore ?st' \<longleftrightarrow> length docs < 10)
             \<and> lastVisibleChatRef ?st' = Some (if docs = [] then cursor else fst (last docs))
             \<and> loadedChatsCountRef ?st' = loadedChatsCountRef st + length docs
             \<and> (length docs = 10 \<longrightarrow>
                  (\<forall>env' db'. snd (loadMoreChats env' db' ?st')
                     = [\<lparr>q_userId = userId_arg st, q_startAfter = fst (last docs),
                         q_limit = 10\<rparr>]))"
    if g: "userId_arg st \<noteq> [] \<and> \<not> loadingMore st \<and> hasMore st \<and> lastVisibleChatRef st = Some cursor"
      and d: "getDocs (getDocs_fault env) db ?q = Inr docs" for docs
  proof -
    from g have g': "userId_arg st \<noteq> []" "\<not> loadingMore st" "hasMore st"
        "lastVisibleChatRef st = Some cursor" by simp_all
    from d have d': "getDocs (getDocs_fault env) db
           \<lparr>q_userId = userId_arg st, q_startAfter = cursor, q_limit = CHAT_PAGE_SIZE\<rparr> = Inr docs"
      by (simp add: CHAT_PAGE_SIZE_def)
    from loadMoreChats_page[OF g' d']
    have p: "chats ?st' = chats st @ newChats_of env docs" "length docs \<le> 10"
        "hasMore ?st' \<longleftrightarrow> length docs = 10"
        "lastVisibleChatRef ?st' = Some (if docs = [] then cursor else fst (last docs))"
        "loadedChatsCountRef ?st' = loadedChatsCountRef st + length docs"
      by (simp_all add: CHAT_PAGE_SIZE_def)
    have n: "snd (loadMoreChats env' db' ?st')
                     = [\<lparr>q_userId = userId_arg st, q_startAfter = fst (last docs), q_limit = 10\<rparr>]"
      if "length docs = 10" for env' db'
      using loadMoreChats_next_query[OF g' d', of env' db'] that by (simp add: CHAT_PAGE_SIZE_def)
    from p(2,3) have "\<not> hasMore ?st' \<longleftrightarrow> length docs < 10" by auto
    with p n show ?thesis
      by (simp add: length_newChats chat_ids_newChats)
  qed
  have err: "chats ?st' = chats st \<and> hasMore ?st' \<and> lastVisibleChatRef ?st' = Some cursor"
    if g: "userId_arg st \<noteq> [] \<and> \<not> loadingMore st \<and> hasMore st \<and> lastVisibleChatRef st = Some cursor"
      and d: "getDocs (getDocs_fault env) db ?q = Inl e" for e
    using loadMoreChats_error[of st cursor env db e] g d by (simp add: CHAT_PAGE_SIZE_def)
  have pos: "map chat_id (chats ?st')
               = map chat_id (chats st)
                 @ map fst (take 10 (drop (Suc k) (owned_desc db (userId_arg st))))
             \<and> (hasMore ?st' \<longleftrightarrow> k + 10 < length (owned_desc db (userId_arg st)))
             \<and> (k + 10 < length (owned_desc db (userId_arg st)) \<longrightarrow>
                  lastVisibleChatRef ?st' = Some (fst (owned_desc db (userId_arg st) ! (k + 10))))"
    if g: "userId_arg st \<noteq> [] \<and> \<not> loadingMore st \<and> hasMore st \<and> lastVisibleChatRef st = Some cursor"
      and h: "getDocs_fault env = None \<and> distinct (map fst db)
               \<and> k < length (owned_desc db (userId_arg st))
               \<and> cursor = fst (owned_desc db (userId_arg st) ! k)" for k
    using loadMoreChats_position[of st cursor env db k] g h by (simp add: CHAT_PAGE_SIZE_def)
  from noop snap call page err pos show ?thesis by blast
qed

lemma many_chats_order:
  "owned_desc many_chats ''u1'' = many_chats \<and> distinct (map fst many_chats)
   \<and> length many_chats = 33 \<and> getDocs_fault quiet_env = None
   \<and> fst (many_chats ! 19) = chat_name 19 \<and> fst (many_chats ! 29) = chat_name 29
   \<and> map fst (take 10 (drop 20 many_chats)) = map chat_name [20..<30]
   \<and> map fst (take 10 (drop 30 many_chats)) = map chat_name [30..<33]
   \<and> map fst (drop 30 many_chats) = map chat_name [30..<33]"
  by code_simp

lemma subscribed_state_start:
  "userId_arg subscribed_state = ''u1'' \<and> \<not> loadingMore subscribed_state
   \<and> hasMore subscribed_state \<and> lastVisibleChatRef subscribed_state = Some (chat_name 19)
   \<and> map chat_id (chats subscribed_state) = map chat_name [0..<20]"
  by code_simp

lemma chat_name_ranges:
  "map chat_name [0..<20] @ map chat_name [20..<30] = map chat_name [0..<30]
   \<and> map chat_name [0..<30] @ map chat_name [30..<33] = map chat_name [0..<33]"
  by code_simp

theorem loadMoreChats_pagination_witness:
  "userId_arg subscribed_state \<noteq> [] \<and> \<not> loadingMore subscribed_state
   \<and> hasMore subscribed_state \<and> lastVisibleChatRef subscribed_state = Some (chat_name 19)
   \<and> snd (loadMoreChats quiet_env many_chats subscribed_state)
       = [\<lparr>q_userId = ''u1'', q_startAfter = chat_name 19, q_limit = 10\<rparr>]
   \<and> map chat_id (chats (fst (loadMoreChats quiet_env many_chats subscribed_state)))
       = map chat_name [0..<30]
   \<and> hasMore (fst (loadMoreChats quiet_env many_chats subscribed_state))
   \<and> snd (loadMoreChats quiet_env many_chats
             (fst (loadMoreChats quiet_env many_chats subscribed_state)))
       = [\<lparr>q_userId = ''u1'', q_startAfter = chat_name 29, q_limit = 10\<rparr>]
   \<and> map chat_id (chats (fst (loadMoreChats quiet_env many_chats
                              (fst (loadMoreChats quiet_env many_chats subscribed_state)))))
       = map chat_name [0..<33]
   \<and> \<not> hasMore (fst (loadMoreChats quiet_env many_chats
                        (fst (loadMoreChats quiet_env many_chats subscribed_state))))
   \<and> loadMoreChats quiet_env many_chats
         (fst (loadMoreChats quiet_env many_chats
                (fst (loadMoreChats quiet_env many_chats subscribed_state))))
       = (fst (loadMoreChats quiet_env many_chats
                (fst (loadMoreChats quiet_env many_chats subscribed_state))), [])"
proof -
  let ?s1 = "fst (loadMoreChats quiet_env many_chats subscribed_state)"
  let ?s2 = "fst (loadMoreChats quiet_env many_chats ?s1)"
  note m = many_chats_order and s = subscribed_state_start and r = chat_name_ranges
  have g0: "userId_arg subscribed_state \<noteq> [] \<and> \<not> loadingMore subscribed_state
     \<and> hasMore subscribed_state \<and> lastVisibleChatRef subscribed_state = Some (chat_name 19)"
    using s by simp
  have k0: "getDocs_fault quiet_env = None \<and> distinct (map fst many_chats)
      \<and> 19 < length (owned_desc many_chats (userId_arg subscribed_state))
      \<and> chat_name 19 = fst (owned_desc many_chats (userId_arg subscribed_state) ! 19)"
    using m s by simp
  from loadMoreChats_pagination[of subscribed_state "chat_name 19" quiet_env many_chats] g0 k0
  have q1: "snd (loadMoreChats quiet_env many_chats subscribed_state)
       = [\<lparr>q_userId = userId_arg subscribed_state, q_startAfter = chat_name 19, q_limit = 10\<rparr>]"
    and l1: "\<not> loadingMore ?s1" and u1: "userId_arg ?s1 = userId_arg subscribed_state"
    and c1: "map chat_id (chats ?s1) = map chat_id (chats subscribed_state)
              @ map fst (take 10 (drop (Suc 19) (owned_desc many_chats (userId_arg subscribed_state))))"
    and h1: "hasMore ?s1 \<longleftrightarrow> 19 + 10 < length (owned_desc many_chats (userId_arg subscribed_state))"
    and p1: "19 + 10 < length (owned_desc many_chats (userId_arg subscribed_state)) \<longrightarrow>
              lastVisibleChatRef ?s1
                = Some (fst (owned_desc many_chats (userId_arg subscribed_state) ! (19 + 10)))"
    by blast+
  have g1: "userId_arg ?s1 \<noteq> [] \<and> \<not> loadingMore ?s1 \<and> hasMore ?s1
     \<and> lastVisibleChatRef ?s1 = Some (chat_name 29)"
    using l1 u1 h1 p1 m s by simp
  have k1: "getDocs_fault quiet_env = None \<and> distinct (map fst many_chats)
      \<and> 29 < length (owned_desc many_chats (userId_arg ?s1))
      \<and> chat_name 29 = fst (owned_desc many_chats (userId_arg ?s1) ! 29)"
    using m s u1 by simp
  from loadMoreChats_pagination[of ?s1 "chat_name 29" quiet_env many_chats] g1 k1
  have q2: "snd (loadMoreChats quiet_env many_chats ?s1)
       = [\<lparr>q_userId = userId_arg ?s1, q_startAfter = chat_name 29, q_limit = 10\<rparr>]"
    and c2: "map chat_id (chats ?s2) = map chat_id (chats ?s1)
              @ map fst (take 10 (drop (Suc 29) (owned_desc many_chats (userId_arg ?s1))))"
    and h2: "hasMore ?s2 \<longleftrightarrow> 29 + 10 < length (owned_desc many_chats (userId_arg ?s1))"
    by blast+
  from h2 m s u1 have n2: "\<not> hasMore ?s2" by simp
  from loadMoreChats_pagination[of ?s2 _ quiet_env many_chats] n2
  have q3: "loadMoreChats quiet_env many_chats ?s2 = (?s2, [])" by blast
  have ids1: "map chat_id (chats ?s1) = map chat_name [0..<30]"
    using c1 m s r by simp
  have ids2: "map chat_id (chats ?s2) = map chat_name [0..<33]"
    using c2 ids1 m s u1 r by simp
  from g0 q1 ids1 g1 q2 ids2 n2 q3 u1 s show ?thesis by simp
qed

section \<open>Retries of a single message\<close>

declare failing_attempts.simps [simp del]

lemma attempt_retry_step:
  assumes m: "mountedRef st" and rc: "retry_count st (msg_id message) = rc" and lt: "rc < 2"
  shows "\<exists>st'. mountedRef st' \<and> retry_count st' (msg_id message) = Suc rc
            \<and> set (timers st') \<subseteq> set (timers st)
            \<and> failing_attempts timesOut captured message st
                = (fst (failing_attempts timesOut captured message st'),
                   DecryptCall (msg_id message) (Suc rc) # Backoff (1000 * 2 ^ rc)
                     # snd (failing_attempts timesOut captured message st'))"
proof -
  obtain st1 tid where s: "decryptSingleMessage_start message st = (st1, Some (rc, tid))"
      and m1: "mountedRef st1" and t1: "\<forall>x \<in> set (timers st1). timer_id x = tid \<or> x \<in> set (timers st)"
      and c1: "retryCountsRef st1 = retryCountsRef st"
    using m rc lt
    by (auto simp: decryptSingleMessage_start_def Let_def setTimeout_def retry_count_def
        MAX_DECRYPTION_RETRIES_def)
  define st2 where "st2 = (if timesOut rc
                   then decryptionTimeout_fired captured (msg_id message) (expire tid st1)
                   else st1)"
  have m2: "mountedRef st2" and t2: "set (timers st2) \<subseteq> set (timers st1)"
    and c2: "retryCountsRef st2 = retryCountsRef st1"
    using m1 by (auto simp: st2_def decryptionTimeout_fired_def expire_def)
  define st3 where "st3 = fst (decryptSingleMessage_rejected message rc tid st2)"
  define rt where "rt = nextTimerId st2"
  have r: "decryptSingleMessage_rejected message rc tid st2 = (st3, Some (rt, 1000 * 2 ^ rc))"
    using m2 lt
    by (simp add: st3_def rt_def decryptSingleMessage_rejected_def Let_def setTimeout_def
        clearTimeout_def MAX_DECRYPTION_RETRIES_def DECRYPTION_RETRY_DELAY_def)
  have m3: "mountedRef st3" and c3: "retryCountsRef st3 (msg_id message) = Some (Suc rc)"
    using m2 lt
    by (simp_all add: st3_def decryptSingleMessage_rejected_def Let_def setTimeout_def
        clearTimeout_def MAX_DECRYPTION_RETRIES_def DECRYPTION_RETRY_DELAY_def)
  have "set (timers (expire rt st3)) \<subseteq> {x \<in> set (timers st2). timer_id x \<noteq> tid}"
    using m2 lt
    by (auto simp: st3_def rt_def decryptSingleMessage_rejected_def Let_def setTimeout_def
        clearTimeout_def expire_def MAX_DECRYPTION_RETRIES_def)
  with t2 t1 have t3: "set (timers (expire rt st3)) \<subseteq> set (timers st)"
    by blast
  let ?st' = "retryTimer_fired message (expire rt st3)"
  have "mountedRef ?st'" "retry_count ?st' (msg_id message) = Suc rc"
    "set (timers ?st') \<subseteq> set (timers st)"
    using m3 c3 t3 by (auto simp: retryTimer_fired_def expire_def retry_count_def)
  moreover have "failing_attempts timesOut captured message st
                = (fst (failing_attempts timesOut captured message ?st'),
                   DecryptCall (msg_id message) (Suc rc) # Backoff (1000 * 2 ^ rc)
                     # snd (failing_attempts timesOut captured message ?st'))"
    apply (subst failing_attempts.simps)
    using s r m3 apply (simp add: st2_def[symmetric] split: prod.splits)
    done
  ultimately show ?thesis by blast
qed

lemma attempt_final_step:
  assumes m: "mountedRef st" and rc: "retry_count st (msg_id message) = 2"
  shows "\<exists>st'. failing_attempts timesOut captured message st
                  = (st', [DecryptCall (msg_id message) 3])
            \<and> map_get (cache (decryptedMessagesCache st')) (msg_id message) = Some ERROR_MARKER
            \<and> retryCountsRef st' (msg_id message) = None
            \<and> set (timers st') \<subseteq> set (timers st)
            \<and> msg_id message \<notin> decryptingMessageIds st'"
proof -
  obtain st1 tid where s: "decryptSingleMessage_start message st = (st1, Some (2, tid))"
      and m1: "mountedRef st1" and t1: "\<forall>x \<in> set (timers st1). timer_id x = tid \<or> x \<in> set (timers st)"
    using m rc
    by (auto simp: decryptSingleMessage_start_def Let_def setTimeout_def retry_count_def
        MAX_DECRYPTION_RETRIES_def)
  define st2 where "st2 = (if timesOut 2
                   then decryptionTimeout_fired captured (msg_id message) (expire tid st1)
                   else st1)"
  have m2: "mountedRef st2" and t2: "set (timers st2) \<subseteq> set (timers st1)"
    using m1 by (auto simp: st2_def decryptionTimeout_fired_def expire_def)
  define st3 where "st3 = fst (decryptSingleMessage_rejected message 2 tid st2)"
  have r: "decryptSingleMessage_rejected message 2 tid st2 = (st3, None)"
    using m2
    by (simp add: st3_def decryptSingleMessage_rejected_def Let_def MAX_DECRYPTION_RETRIES_def)
  have c3: "retryCountsRef st3 (msg_id message) = None"
    and k3: "map_get (cache (decryptedMessagesCache st3)) (msg_id message) = Some ERROR_MARKER"
    and d3: "msg_id message \<notin> decryptingMessageIds st3"
    using m2
    by (simp_all add: st3_def decryptSingleMessage_rejected_def Let_def clearTimeout_def
        MAX_DECRYPTION_RETRIES_def lookup_lru_set)
  have "set (timers st3) \<subseteq> {x \<in> set (timers st2). timer_id x \<noteq> tid}"
    using m2
    by (auto simp: st3_def decryptSingleMessage_rejected_def Let_def clearTimeout_def
        MAX_DECRYPTION_RETRIES_def)
  with t2 t1 have t3: "set (timers st3) \<subseteq> set (timers st)"
    by blast
  have "failing_attempts timesOut captured message st = (st3, [DecryptCall (msg_id message) 3])"
    apply (subst failing_attempts.simps)
    using s r apply (simp add: st2_def[symmetric])
    done
  with c3 k3 t3 d3 show ?thesis by blast
qed

lemma three_failing_attempts:
  assumes m: "mountedRef st" and rc: "retryCountsRef st (msg_id message) = None"
  shows "snd (failing_attempts timesOut captured message st)
           = [DecryptCall (msg_id message) 1, Backoff 1000,
              DecryptCall (msg_id message) 2, Backoff 2000,
              DecryptCall (msg_id message) 3]
     \<and> map_get (cache (decryptedMessagesCache (fst (failing_attempts timesOut captured message st))))
           (msg_id message) = Some ERROR_MARKER
     \<and> retryCountsRef (fst (failing_attempts timesOut captured message st)) (msg_id message) = None
     \<and> set (timers (fst (failing_attempts timesOut captured message st))) \<subseteq> set (timers st)"
proof -
  from rc have r0: "retry_count st (msg_id message) = 0" by (simp add: retry_count_def)
  from attempt_retry_step[OF m r0, of timesOut captured]
  obtain sa where a: "mountedRef sa" "retry_count sa (msg_id message) = Suc 0"
      "set (timers sa) \<subseteq> set (timers st)"
      "failing_attempts timesOut captured message st
                = (fst (failing_attempts timesOut captured message sa),
                   DecryptCall (msg_id message) (Suc 0) # Backoff (1000 * 2 ^ 0)
                     # snd (failing_attempts timesOut captured message sa))"
    by auto
  from attempt_retry_step[OF a(1,2), of timesOut captured]
  obtain sb where b: "mountedRef sb" "retry_count sb (msg_id message) = Suc (Suc 0)"
      "set (timers sb) \<subseteq> set (timers sa)"
      "failing_attempts timesOut captured message sa
                = (fst (failing_attempts timesOut captured message sb),
                   DecryptCall (msg_id message) (Suc (Suc 0)) # Backoff (1000 * 2 ^ Suc 0)
                     # snd (failing_attempts timesOut captured message sb))"
    by auto
  from b(2) have b2: "retry_count sb (msg_id message) = 2" by simp
  from attempt_final_step[OF b(1) b2, of timesOut captured]
  obtain sc where c: "failing_attempts timesOut captured message sb
                  = (sc, [DecryptCall (msg_id message) 3])"
      "map_get (cache (decryptedMessagesCache sc)) (msg_id message) = Some ERROR_MARKER"
      "retryCountsRef sc (msg_id message) = None"
      "set (timers sc) \<subseteq> set (timers sb)"
    by auto
  from a(3,4) b(3,4) c show ?thesis
    by (auto simp: numeral_2_eq_2)
qed

text \<open>
  Claim C3. For a message without retry state whose decrypt call rejects on every
  attempt, while the component stays mounted: \<^verbatim>\<open>decryptSingleMessage\<close> issues exactly
  three decrypt calls (\<^verbatim>\<open>MAX_DECRYPTION_RETRIES\<close>) and no fourth one; it waits
  1000 ms before the second and 2000 ms before the third (\<^verbatim>\<open>DECRYPTION_RETRY_DELAY\<close>
  times \<open>2 ^ 0\<close> and \<open>2 ^ 1\<close>); after the third failure the cache holds the error
  marker for the message, its retry count is deleted and no timer set on the way is
  left pending. This holds whether or not the 30 second timer of an attempt fires
  before the rejection arrives.
\<close>

theorem single_message_three_attempts_then_terminal:
  assumes "mountedRef st" and "retryCountsRef st (msg_id message) = None"
  shows "snd (failing_attempts timesOut captured message st)
           = [DecryptCall (msg_id message) 1, Backoff 1000,
              DecryptCall (msg_id message) 2, Backoff 2000,
              DecryptCall (msg_id message) 3]
     \<and> length (filter (\<lambda>e. case e of DecryptCall _ _ \<Rightarrow> True | Backoff _ \<Rightarrow> False)
                 (snd (failing_attempts timesOut captured message st)))
         = MAX_DECRYPTION_RETRIES
     \<and> [d. Backoff d \<leftarrow> snd (failing_attempts timesOut captured message st)]
         = [DECRYPTION_RETRY_DELAY * 2 ^ 0, DECRYPTION_RETRY_DELAY * 2 ^ 1]
     \<and> map_get (cache (decryptedMessagesCache (fst (failing_attempts timesOut captured message st))))
           (msg_id message) = Some ERROR_MARKER
     \<and> retryCountsRef (fst (failing_attempts timesOut captured message st)) (msg_id message) = None
     \<and> set (timers (fst (failing_attempts timesOut captured message st))) \<subseteq> set (timers st)"
  using three_failing_attempts[OF assms, of timesOut captured]
  by (simp add: MAX_DECRYPTION_RETRIES_def DECRYPTION_RETRY_DELAY_def)

theorem single_message_three_attempts_then_terminal_witness:
  "mountedRef (initial_state ''u1'')
   \<and> retryCountsRef (initial_state ''u1'') (msg_id demo_message) = None
   \<and> snd (failing_attempts (\<lambda>_. False) {} demo_message (initial_state ''u1''))
       = [DecryptCall ''m1'' 1, Backoff 1000, DecryptCall ''m1'' 2, Backoff 2000,
          DecryptCall ''m1'' 3]
   \<and> map_get (cache (decryptedMessagesCache
         (fst (failing_attempts (\<lambda>_. False) {} demo_message (initial_state ''u1''))))) ''m1''
       = Some ''[Error al descifrar]''
   \<and> timers (fst (failing_attempts (\<lambda>_. False) {} demo_message (initial_state ''u1''))) = []"
proof -
  have m: "mountedRef (initial_state ''u1'')"
    and r: "retryCountsRef (initial_state ''u1'') (msg_id demo_message) = None"
    and t: "timers (initial_state ''u1'') = []"
    and i: "msg_id demo_message = ''m1''"
    by (simp_all add: initial_state_def demo_message_def)
  from single_message_three_attempts_then_terminal[OF m r, of "\<lambda>_. False" "{}"] m r t i
  show ?thesis by (simp add: ERROR_MARKER_def)
qed

section \<open>The timeout of an attempt\<close>

lemma first_attempt_in_flight_state:
  "decryptSingleMessage_start demo_message (initial_state ''u1'')
     = (first_attempt_in_flight, Some (0, 1))
   \<and> mountedRef first_attempt_in_flight
   \<and> retryCountsRef first_attempt_in_flight = Map.empty
   \<and> decryptedMessagesCache first_attempt_in_flight = \<lparr>maxSize = 1000, cache = []\<rparr>
   \<and> timers first_attempt_in_flight
       = [\<lparr>timer_id = 1, action = DecryptionTimeout ''m1'', delay = 30000\<rparr>]"
  by (simp add: first_attempt_in_flight_def decryptSingleMessage_start_def initial_state_def
      demo_message_def Let_def setTimeout_def MAX_DECRYPTION_RETRIES_def DECRYPTION_TIMEOUT_def
      LRUCache_new_def MAX_MESSAGES_IN_MEMORY_def)

text \<open>
  Claim C4, as amended. When the 30 second timer of an attempt fires before the call
  has settled, the timeout is not handled through the retry policy: the handler never
  changes the retry count of the message and never sets a retry timer, and the only
  value it can write to the cache is the timeout marker for that message. This holds
  for every state and for every set the handler may read. Retries are scheduled only
  when the decrypt call itself rejects.
\<close>

theorem timeout_writes_marker_without_retry:
  "retryCountsRef (decryptionTimeout_fired captured messageId (expire timeoutId st))
     = retryCountsRef st
   \<and> set (timers (decryptionTimeout_fired captured messageId (expire timeoutId st)))
       \<subseteq> set (timers st)
   \<and> (decryptedMessagesCache (decryptionTimeout_fired captured messageId (expire timeoutId st))
         = decryptedMessagesCache st
       \<or> decryptedMessagesCache (decryptionTimeout_fired captured messageId (expire timeoutId st))
         = lru_set (decryptedMessagesCache st) messageId TIMEOUT_MARKER)
   \<and> batchDecryptionQueueRef (decryptionTimeout_fired captured messageId (expire timeoutId st))
       = batchDecryptionQueueRef st"
  by (auto simp: decryptionTimeout_fired_def expire_def)

theorem timeout_writes_marker_without_retry_witness:
  "retryCountsRef (decryptionTimeout_fired {} ''m1'' (expire 1 first_attempt_in_flight))
     = Map.empty
   \<and> set (timers (decryptionTimeout_fired {} ''m1'' (expire 1 first_attempt_in_flight)))
       \<subseteq> {\<lparr>timer_id = 1, action = DecryptionTimeout ''m1'', delay = 30000\<rparr>}"
  using timeout_writes_marker_without_retry[of "{}" "''m1''" 1 first_attempt_in_flight]
    first_attempt_in_flight_state
  by simp

text \<open>
  The claim as first stated (a timeout counts as a failed attempt and leads to a retry
  with backoff while attempts remain) fails: the first attempt of a message is in
  flight and its timer fires; afterwards no retry timer is pending and the retry count
  of the message has not moved, although only one of three attempts has been made.
\<close>

theorem timeout_no_retry_counterexample:
  "decryptSingleMessage_start demo_message (initial_state ''u1'')
     = (first_attempt_in_flight, Some (0, 1))
   \<and> timers (decryptionTimeout_fired {} ''m1'' (expire 1 first_attempt_in_flight)) = []
   \<and> retryCountsRef (decryptionTimeout_fired {} ''m1'' (expire 1 first_attempt_in_flight)) ''m1''
       = None"
  using first_attempt_in_flight_state
  by (simp add: decryptionTimeout_fired_def expire_def)

section \<open>The batcher\<close>

declare processBatchDecryption.simps [simp del]

lemma once_enqueued_state:
  "batchDecryptionQueueRef once_enqueued = [demo_message]
   \<and> timers once_enqueued = [\<lparr>timer_id = 1, action = ProcessBatch, delay = 100\<rparr>]
   \<and> mountedRef once_enqueued \<and> retryCountsRef once_enqueued = Map.empty
   \<and> decryptedMessagesCache once_enqueued = LRUCache_new 1000"
  by (simp add: once_enqueued_def decryptMessageIfNeeded_def queueBatchDecryption_def
      initial_state_def demo_message_def lru_has_def map_has_def LRUCache_new_def Let_def
      setTimeout_def clearTimeout_def MAX_MESSAGES_IN_MEMORY_def)

lemma twice_enqueued_state:
  "batchDecryptionQueueRef twice_enqueued = [demo_message, demo_message]
   \<and> timers twice_enqueued = [\<lparr>timer_id = 2, action = ProcessBatch, delay = 100\<rparr>]
   \<and> mountedRef twice_enqueued"
  by (simp add: twice_enqueued_def decryptMessageIfNeeded_def queueBatchDecryption_def
      initial_state_def demo_message_def lru_has_def map_has_def LRUCache_new_def Let_def
      setTimeout_def clearTimeout_def)

text \<open>
  Claim C5, evaluated on the code. The same message is requested twice through
  \<^verbatim>\<open>decryptMessageIfNeeded\<close> before the batch timer fires. Neither the cache nor the
  decrypting set knows it, and the queue is not consulted, so the queue holds it twice;
  when the timer fires, the batch handed to \<^verbatim>\<open>batchDecryptMessages\<close> has two elements
  and two decrypt calls are made for the one message.
\<close>

theorem twice_enqueued_decrypted_twice:
  "batchDecryptionQueueRef twice_enqueued = [demo_message, demo_message]
   \<and> fst (snd (processBatchDecryption answering_service (expire 2 twice_enqueued)))
       = [[demo_message, demo_message]]"
proof -
  have "fst (snd (processBatchDecryption answering_service (expire 2 twice_enqueued)))
       = [[demo_message, demo_message]]"
    by (subst processBatchDecryption.simps)
       (simp add: twice_enqueued_state expire_def Let_def MAX_CONCURRENT_DECRYPTIONS_def
          batchDecryptMessages_def answering_service_def store_batch_result_def demo_message_def)
  with twice_enqueued_state show ?thesis by simp
qed

text \<open>
  Claim C6, evaluated on the code. A batch of one message is dispatched and the decrypt
  call of the message rejects with a network error. \<^verbatim>\<open>batchDecryptMessages\<close> turns
  the rejection into a result with the text \<^verbatim>\<open>[Error: Failed to decrypt]\<close>, which
  \<^verbatim>\<open>processBatchDecryption\<close> stores in the cache like a plaintext: no single-message
  attempt is started, no retry timer is set and no retry count is recorded.
\<close>

theorem batch_item_failure_cached_without_retry:
  "processBatchDecryption unreachable_service (expire 1 once_enqueued)
     = ((expire 1 once_enqueued)
          \<lparr>batchDecryptionQueueRef := [],
           decryptedMessagesCache :=
             \<lparr>maxSize = 1000, cache = [(''m1'', ''[Error: Failed to decrypt]'')]\<rparr>,
           decryptingMessageIds := {}\<rparr>,
        [[demo_message]], [])
   \<and> timers (expire 1 once_enqueued) = []
   \<and> retryCountsRef (expire 1 once_enqueued) = Map.empty"
proof -
  have "processBatchDecryption unreachable_service (expire 1 once_enqueued)
     = ((expire 1 once_enqueued)
          \<lparr>batchDecryptionQueueRef := [],
           decryptedMessagesCache :=
             \<lparr>maxSize = 1000, cache = [(''m1'', ''[Error: Failed to decrypt]'')]\<rparr>,
           decryptingMessageIds := {}\<rparr>,
        [[demo_message]], [])"
    apply (subst processBatchDecryption.simps)
    apply (simp add: once_enqueued_state expire_def Let_def MAX_CONCURRENT_DECRYPTIONS_def
        batchDecryptMessages_def unreachable_service_def store_batch_result_def demo_message_def
        lru_set_def evict_oldest_def LRUCache_new_def)
    apply (simp add: once_enqueued_def decryptMessageIfNeeded_def queueBatchDecryption_def
        initial_state_def demo_message_def lru_has_def map_has_def LRUCache_new_def Let_def
        setTimeout_def clearTimeout_def MAX_MESSAGES_IN_MEMORY_def)
    done
  with once_enqueued_state show ?thesis by (simp add: expire_def)
qed

end
